theory Spec2Isabelle
  imports Main "HOL-Library.Word" "HOL-Library.Monad_Syntax"
begin

section \<open>Monotonic clock: \<^verbatim>\<open>os_get_time_monotonic\<close>\<close>

text \<open>
  The C function keeps one \<^verbatim>\<open>static long long last = 0\<close> and, after the platform
  specific branch has computed the converted reading \<^verbatim>\<open>time\<close> (nanoseconds), runs
  \<^verbatim>\<open>if (time <= last) last++; else last = time; return last;\<close>

  A \<^verbatim>\<open>long long\<close> is a 64-bit two's complement integer: it is modelled as a 64-bit word,
  compared as a signed value, and \<^verbatim>\<open>last++\<close> wraps around as the compiled code does.
  The converted reading is an argument of the model (every platform branch ends with one
  value in \<^verbatim>\<open>time\<close>); the static variable is passed in and returned.
\<close>

type_synonym long_long = "64 word"

definition LLONG_MAX :: long_long where
  "LLONG_MAX = 0x7FFFFFFFFFFFFFFF"

text \<open>Initial value of the static variable \<^verbatim>\<open>last\<close>.\<close>

definition last_init :: long_long where
  "last_init = 0"

text \<open>Result: the returned value and the new value of \<^verbatim>\<open>last\<close>.\<close>

definition os_get_time_monotonic :: "long_long \<Rightarrow> long_long \<Rightarrow> long_long \<times> long_long" where
  "os_get_time_monotonic time lastv =
     (let lastv' = (if word_sle time lastv then lastv + 1 else time)
      in (lastv', lastv'))"

text \<open>A sequence of calls, one per converted reading; the list of returned values.\<close>

fun monotonic_calls :: "long_long list \<Rightarrow> long_long \<Rightarrow> long_long list" where
  "monotonic_calls [] lastv = []"
| "monotonic_calls (time # readings) lastv =
     (case os_get_time_monotonic time lastv of
        (r, lastv') \<Rightarrow> r # monotonic_calls readings lastv')"

text \<open>No call of the sequence is made while \<^verbatim>\<open>last\<close> holds the largest \<^verbatim>\<open>long long\<close>.\<close>

fun below_LLONG_MAX :: "long_long list \<Rightarrow> long_long \<Rightarrow> bool" where
  "below_LLONG_MAX [] lastv = True"
| "below_LLONG_MAX (time # readings) lastv =
     (lastv \<noteq> LLONG_MAX \<and> below_LLONG_MAX readings (snd (os_get_time_monotonic time lastv)))"

definition strictly_increasing :: "long_long list \<Rightarrow> bool" where
  "strictly_increasing vs = sorted_wrt (\<lambda>a b. sint a < sint b) vs"

section \<open>One-time initialisation: \<^verbatim>\<open>os_thread_once\<close>\<close>

text \<open>
  The guard \<^verbatim>\<open>os_thread_once_t\<close> holds one of three states. The file has two versions of
  the function: the FreeRTOS one, which branches on whether the scheduler is running, and the
  one for \<^verbatim>\<open>__EMSCRIPTEN__\<close>, a target without threads.

  The memory the function and the routine work on is a record: the guard's state, whether
  the file-level mutex \<^verbatim>\<open>onceMutex\<close> is held, and a counter for routines to increment.
  A routine is a function on that record, so it may touch the guard as C code may.
  The calls of one caller are modelled: \<^verbatim>\<open>os_mutex_lock\<close> on a mutex that is held, and
  the polling loop on a state that nobody changes, do not return, which is the value
  \<open>None\<close>. What the other tasks do while the caller sleeps in \<^verbatim>\<open>usleep\<close> is the
  parameter \<open>usleep\<close>.
\<close>

datatype once_state = OS_THREAD_ONCE_NEVER | OS_THREAD_ONCE_INPROGRESS | OS_THREAD_ONCE_DONE

record once_world =
  state :: once_state
  onceMutex :: bool
  counter :: nat

datatype fatal = DIE string

definition os_mutex_lock :: "once_world \<Rightarrow> once_world option" where
  "os_mutex_lock w = (if onceMutex w then None else Some (w\<lparr>onceMutex := True\<rparr>))"

definition os_mutex_unlock :: "once_world \<Rightarrow> once_world" where
  "os_mutex_unlock w = w\<lparr>onceMutex := False\<rparr>"

text \<open>
  The loop \<^verbatim>\<open>while (once->state == OS_THREAD_ONCE_INPROGRESS)\<close>, entered and left with the
  mutex held.
\<close>

partial_function (option) once_wait ::
    "(once_world \<Rightarrow> once_world) \<Rightarrow> once_world \<Rightarrow> once_world option" where
  "once_wait usleep w =
     (if state w = OS_THREAD_ONCE_INPROGRESS
      then do { w' \<leftarrow> os_mutex_lock (usleep (os_mutex_unlock w)); once_wait usleep w' }
      else Some w)"

declare once_wait.simps [code]

text \<open>
  The FreeRTOS version. \<open>scheduler_running\<close> is the test
  \<^verbatim>\<open>xTaskGetSchedulerState() == taskSCHEDULER_RUNNING\<close>. The result is the returned
  \<^verbatim>\<open>int\<close> and the memory after the call.
\<close>

definition os_thread_once ::
    "bool \<Rightarrow> (once_world \<Rightarrow> once_world) \<Rightarrow> (once_world \<Rightarrow> once_world) \<Rightarrow> once_world
      \<Rightarrow> (int \<times> once_world) option" where
  "os_thread_once scheduler_running usleep routine w =
     (if scheduler_running then
        do {
          w1 \<leftarrow> os_mutex_lock w;
          w2 \<leftarrow> (if state w1 = OS_THREAD_ONCE_NEVER then
                   do {
                     w' \<leftarrow> os_mutex_lock
                            (routine (os_mutex_unlock (w1\<lparr>state := OS_THREAD_ONCE_INPROGRESS\<rparr>)));
                     Some (w'\<lparr>state := OS_THREAD_ONCE_DONE\<rparr>)
                   }
                 else Some w1);
          w3 \<leftarrow> once_wait usleep w2;
          Some (0, os_mutex_unlock w3)
        }
      else
        (if state w = OS_THREAD_ONCE_NEVER then
           Some (0, (routine (w\<lparr>state := OS_THREAD_ONCE_INPROGRESS\<rparr>))
                      \<lparr>state := OS_THREAD_ONCE_DONE\<rparr>)
         else Some (0, w)))"

text \<open>The version compiled for \<^verbatim>\<open>__EMSCRIPTEN__\<close>; \<^verbatim>\<open>DIE\<close> is the fatal halt.\<close>

definition os_thread_once_emscripten ::
    "(once_world \<Rightarrow> once_world) \<Rightarrow> once_world \<Rightarrow> fatal + int \<times> once_world" where
  "os_thread_once_emscripten routine w =
     (if state w = OS_THREAD_ONCE_NEVER then
        Inr (0, (routine (w\<lparr>state := OS_THREAD_ONCE_INPROGRESS\<rparr>))
                  \<lparr>state := OS_THREAD_ONCE_DONE\<rparr>)
      else if state w = OS_THREAD_ONCE_INPROGRESS then
        Inl (DIE ''Recursive call to os_thread_once.'')
      else Inr (0, w))"

text \<open>A call that halts returns nothing.\<close>

definition returned :: "'e + 'a \<Rightarrow> 'a option" where
  "returned r = (case r of Inl e \<Rightarrow> None | Inr x \<Rightarrow> Some x)"

text \<open>
  \<open>k\<close> calls with the same guard, one after the other: the list of returned values and the
  memory after the last call, or \<open>None\<close> when one of the calls does not return.
\<close>

fun once_calls ::
    "(once_world \<Rightarrow> (int \<times> once_world) option) \<Rightarrow> nat \<Rightarrow> once_world
      \<Rightarrow> (int list \<times> once_world) option" where
  "once_calls call 0 w = Some ([], w)"
| "once_calls call (Suc k) w =
     (case call w of
        None \<Rightarrow> None
      | Some (r, w') \<Rightarrow>
          (case once_calls call k w' of
             None \<Rightarrow> None
           | Some (rs, w'') \<Rightarrow> Some (r # rs, w'')))"

text \<open>A routine that increments the counter.\<close>

definition increment_counter :: "once_world \<Rightarrow> once_world" where
  "increment_counter w = w\<lparr>counter := counter w + 1\<rparr>"

text \<open>A guard that has not been used, with the counter at zero.\<close>

definition fresh_guard :: once_world where
  "fresh_guard = \<lparr>state = OS_THREAD_ONCE_NEVER, onceMutex = False, counter = 0\<rparr>"

subsection \<open>Concurrent callers\<close>

text \<open>
  Several tasks inside the scheduler-running branch of \<^verbatim>\<open>os_thread_once\<close> at the same time,
  all with the same guard. Every task has a program counter, named after the statement it
  executes next; the statements are atomic and the tasks take turns in any order. The shared
  memory is the record of the sequential model. A task at a \<^verbatim>\<open>os_mutex_lock\<close> can step only
  when the mutex is free, and a task that has returned does not step.

  The program counters, in the order of the source: \<open>At_lock\<close> is the first
  \<^verbatim>\<open>os_mutex_lock\<close>; \<open>At_test\<close> the test for \<^verbatim>\<open>OS_THREAD_ONCE_NEVER\<close>;
  \<open>At_set_inprogress\<close>, \<open>At_unlock_run\<close>, \<open>At_routine\<close>, \<open>At_relock\<close> and
  \<open>At_set_done\<close> the five statements of its body; \<open>At_while\<close> the test of the polling
  loop; \<open>At_unlock_sleep\<close>, \<open>At_usleep\<close> and \<open>At_lock_again\<close> the three statements of
  its body; \<open>At_unlock_return\<close> the last \<^verbatim>\<open>os_mutex_unlock\<close>; \<open>Returned r\<close> a call that
  has returned \<open>r\<close>.
\<close>

datatype once_pc =
    At_lock
  | At_test
  | At_set_inprogress
  | At_unlock_run
  | At_routine
  | At_relock
  | At_set_done
  | At_while
  | At_unlock_sleep
  | At_usleep
  | At_lock_again
  | At_unlock_return
  | Returned int

record once_conf =
  pc_of :: "nat \<Rightarrow> once_pc"
  mem :: once_world

definition goto :: "nat \<Rightarrow> once_pc \<Rightarrow> once_world \<Rightarrow> once_conf \<Rightarrow> once_conf" where
  "goto i p w c = \<lparr>pc_of = (pc_of c)(i := p), mem = w\<rparr>"

text \<open>One statement of task \<open>i\<close>; \<open>None\<close> when the task cannot step.\<close>

definition thread_step :: "(once_world \<Rightarrow> once_world) \<Rightarrow> nat \<Rightarrow> once_conf \<Rightarrow> once_conf option" where
  "thread_step routine i c =
     (case pc_of c i of
        At_lock \<Rightarrow> map_option (\<lambda>w. goto i At_test w c) (os_mutex_lock (mem c))
      | At_test \<Rightarrow>
          if state (mem c) = OS_THREAD_ONCE_NEVER
          then Some (goto i At_set_inprogress (mem c) c)
          else Some (goto i At_while (mem c) c)
      | At_set_inprogress \<Rightarrow>
          Some (goto i At_unlock_run ((mem c)\<lparr>state := OS_THREAD_ONCE_INPROGRESS\<rparr>) c)
      | At_unlock_run \<Rightarrow> Some (goto i At_routine (os_mutex_unlock (mem c)) c)
      | At_routine \<Rightarrow> Some (goto i At_relock (routine (mem c)) c)
      | At_relock \<Rightarrow> map_option (\<lambda>w. goto i At_set_done w c) (os_mutex_lock (mem c))
      | At_set_done \<Rightarrow> Some (goto i At_while ((mem c)\<lparr>state := OS_THREAD_ONCE_DONE\<rparr>) c)
      | At_while \<Rightarrow>
          if state (mem c) = OS_THREAD_ONCE_INPROGRESS
          then Some (goto i At_unlock_sleep (mem c) c)
          else Some (goto i At_unlock_return (mem c) c)
      | At_unlock_sleep \<Rightarrow> Some (goto i At_usleep (os_mutex_unlock (mem c)) c)
      | At_usleep \<Rightarrow> Some (goto i At_lock_again (mem c) c)
      | At_lock_again \<Rightarrow> map_option (\<lambda>w. goto i At_while w c) (os_mutex_lock (mem c))
      | At_unlock_return \<Rightarrow> Some (goto i (Returned 0) (os_mutex_unlock (mem c)) c)
      | Returned r \<Rightarrow> None)"

text \<open>
  A schedule is the list of the tasks that step, in order; it runs as long as the task whose
  turn it is can step.
\<close>

fun run_schedule ::
    "(once_world \<Rightarrow> once_world) \<Rightarrow> nat list \<Rightarrow> once_conf \<Rightarrow> once_conf option" where
  "run_schedule routine [] c = Some c"
| "run_schedule routine (i # sched) c =
     (case thread_step routine i c of
        None \<Rightarrow> None
      | Some c' \<Rightarrow> run_schedule routine sched c')"

text \<open>All tasks are about to enter the function.\<close>

definition once_start :: "once_world \<Rightarrow> once_conf" where
  "once_start w = \<lparr>pc_of = (\<lambda>i. At_lock), mem = w\<rparr>"

text \<open>
  The schedule in which the callers run one after the other: the first takes the nine steps
  through the routine, each later one the four steps past a guard that is Done.
\<close>

fun later_callers :: "nat \<Rightarrow> nat list" where
  "later_callers 0 = []"
| "later_callers (Suc n) = later_callers n @ [Suc n, Suc n, Suc n, Suc n]"

definition solo_schedule :: "nat \<Rightarrow> nat list" where
  "solo_schedule K = [0, 0, 0, 0, 0, 0, 0, 0, 0] @ later_callers (K - 1)"

text \<open>Where a task is: holding the mutex, before or after the routine, polling, leaving.\<close>

fun holds_mutex :: "once_pc \<Rightarrow> bool" where
  "holds_mutex At_test = True"
| "holds_mutex At_set_inprogress = True"
| "holds_mutex At_unlock_run = True"
| "holds_mutex At_set_done = True"
| "holds_mutex At_while = True"
| "holds_mutex At_unlock_sleep = True"
| "holds_mutex At_unlock_return = True"
| "holds_mutex _ = False"

fun before_routine :: "once_pc \<Rightarrow> bool" where
  "before_routine At_unlock_run = True"
| "before_routine At_routine = True"
| "before_routine _ = False"

fun after_routine :: "once_pc \<Rightarrow> bool" where
  "after_routine At_relock = True"
| "after_routine At_set_done = True"
| "after_routine _ = False"

fun polling :: "once_pc \<Rightarrow> bool" where
  "polling At_while = True"
| "polling At_unlock_sleep = True"
| "polling At_usleep = True"
| "polling At_lock_again = True"
| "polling _ = False"

fun leaving :: "once_pc \<Rightarrow> bool" where
  "leaving At_unlock_return = True"
| "leaving (Returned r) = True"
| "leaving _ = False"

fun returned_zero :: "once_pc \<Rightarrow> bool" where
  "returned_zero (Returned r) = (r = 0)"
| "returned_zero _ = True"

definition initialising :: "once_pc \<Rightarrow> bool" where
  "initialising p \<longleftrightarrow> before_routine p \<or> after_routine p"

text \<open>What the position of one task says about the shared memory.\<close>

definition pc_ok :: "once_world \<Rightarrow> once_pc \<Rightarrow> bool" where
  "pc_ok w p \<longleftrightarrow>
     (holds_mutex p \<longrightarrow> onceMutex w)
   \<and> (p = At_set_inprogress \<longrightarrow> state w = OS_THREAD_ONCE_NEVER)
   \<and> (before_routine p \<longrightarrow> state w = OS_THREAD_ONCE_INPROGRESS \<and> counter w = 0)
   \<and> (after_routine p \<longrightarrow> state w = OS_THREAD_ONCE_INPROGRESS \<and> counter w = 1)
   \<and> (polling p \<longrightarrow> state w \<noteq> OS_THREAD_ONCE_NEVER)
   \<and> (leaving p \<longrightarrow> state w = OS_THREAD_ONCE_DONE)
   \<and> returned_zero p"

text \<open>The invariant of \<open>K\<close> concurrent callers.\<close>

definition once_inv :: "nat \<Rightarrow> once_conf \<Rightarrow> bool" where
  "once_inv K c \<longleftrightarrow>
     (\<forall>i<K. pc_ok (mem c) (pc_of c i))
   \<and> (\<forall>i<K. \<forall>j<K. holds_mutex (pc_of c i) \<and> holds_mutex (pc_of c j) \<longrightarrow> i = j)
   \<and> (\<forall>i<K. \<forall>j<K. initialising (pc_of c i) \<and> initialising (pc_of c j) \<longrightarrow> i = j)
   \<and> (state (mem c) = OS_THREAD_ONCE_NEVER \<longrightarrow> counter (mem c) = 0)
   \<and> (state (mem c) = OS_THREAD_ONCE_DONE \<longrightarrow> counter (mem c) = 1)"

section \<open>Thread creation: \<^verbatim>\<open>os_thread_create\<close>\<close>

text \<open>
  Task handles are pointers (32-bit, null is 0), \<^verbatim>\<open>size_t\<close> and \<^verbatim>\<open>unsigned int\<close> are 32-bit
  words and a \<^verbatim>\<open>char\<close> is a byte. A C string is the list of the bytes before the first
  NUL of its buffer.
\<close>

type_synonym xTaskHandle = "32 word"
type_synonym c_char = "8 word"

definition bytes :: "string \<Rightarrow> c_char list" where
  "bytes s = map of_char s"

definition c_str :: "c_char list \<Rightarrow> c_char list" where
  "c_str buf = takeWhile (\<lambda>c. c \<noteq> 0) buf"

text \<open>\<^verbatim>\<open>strcpy(dest, src)\<close>: the string and its NUL overwrite the front of the buffer.\<close>

definition strcpy :: "c_char list \<Rightarrow> c_char list \<Rightarrow> c_char list" where
  "strcpy dest src = c_str src @ [0] @ drop (length (c_str src) + 1) dest"

text \<open>
  The buffer \<^verbatim>\<open>char auto_name[10]\<close> after the four statements that fill it. The sums are
  computed in \<^verbatim>\<open>unsigned int\<close> and cut to a \<^verbatim>\<open>char\<close> by the assignment. The buffer is
  not initialised in C; every element is written, so its first content (zeros here) does not
  show.
\<close>

definition auto_name :: "32 word \<Rightarrow> c_char list" where
  "auto_name count =
     (strcpy [0, 0, 0, 0, 0, 0, 0, 0, 0, 0] (bytes ''thread.''))
       [9 := 0,
        8 := ucast (of_char CHR ''0'' + count mod 10),
        7 := ucast (of_char CHR ''0'' + count div 10)]"

text \<open>Division of C integers truncates towards zero.\<close>

definition c_div :: "int \<Rightarrow> int \<Rightarrow> int" where
  "c_div a b = (if (a < 0) = (b < 0) then \<bar>a\<bar> div \<bar>b\<bar> else - (\<bar>a\<bar> div \<bar>b\<bar>))"

text \<open>An entry of the task list; the list itself is a HOL list, its head first.\<close>

record TaskList =
  task :: xTaskHandle
  name :: "c_char list"
  unused :: "32 word"

definition DELETED_TASK_MAGIC :: "32 word" where
  "DELETED_TASK_MAGIC = 0xb5c5d5e5"

text \<open>The static counter of \<^verbatim>\<open>os_thread_create\<close> and the global \<^verbatim>\<open>taskList\<close>.\<close>

record thread_state =
  count :: "32 word"
  taskList :: "TaskList list"

definition thread_state_init :: thread_state where
  "thread_state_init = \<lparr>count = 0, taskList = []\<rparr>"

text \<open>What \<^verbatim>\<open>os_thread_create\<close> hands to the kernel's task creation function.\<close>

record xTaskCreate_args =
  pcName :: "c_char list"
  stack_bytes :: "32 word"
  uxPriority :: int

definition add_thread_to_task_list :: "TaskList \<Rightarrow> thread_state \<Rightarrow> thread_state" where
  "add_thread_to_task_list task_new st = st\<lparr>taskList := task_new # taskList st\<rparr>"

text \<open>
  The macro \<^verbatim>\<open>configMAX_PRIORITIES\<close> comes from the FreeRTOS configuration of the board,
  which defines it either as a plain \<^verbatim>\<open>int\<close> constant or with a cast to the kernel's
  unsigned base type. The parameter carries the value together with that type, because the
  type decides how \<^verbatim>\<open>priority >= configMAX_PRIORITIES\<close> compares: with an unsigned macro
  the \<^verbatim>\<open>int\<close> on the left is converted to a 32-bit unsigned value first.
\<close>

datatype config_macro = Signed_const int | Unsigned_const int

fun macro_value :: "config_macro \<Rightarrow> int" where
  "macro_value (Signed_const m) = m"
| "macro_value (Unsigned_const m) = m"

definition to_unsigned :: "int \<Rightarrow> int" where
  "to_unsigned i = i mod 2 ^ 32"

fun priority_ge :: "int \<Rightarrow> config_macro \<Rightarrow> bool" where
  "priority_ge priority (Signed_const m) = (priority \<ge> m)"
| "priority_ge priority (Unsigned_const m) = (to_unsigned priority \<ge> m)"

text \<open>
  The FreeRTOS build of \<^verbatim>\<open>os_thread_create\<close>. The macro and the handle that the kernel
  gives to the new task are parameters; a \<^verbatim>\<open>NULL\<close> name is \<open>None\<close>. The kernel keeps a
  copy of the name, which \<^verbatim>\<open>pcTaskGetTaskName\<close> returns: the entry gets the string that
  was passed. The priority is a C \<^verbatim>\<open>int\<close>, an integer from \<open>- 2\<^sup>3\<^sup>1\<close> to \<open>2\<^sup>3\<^sup>1 - 1\<close>. The
  result is the returned \<^verbatim>\<open>int\<close>, the arguments of the task creation (the priority as the
  value of the variable \<^verbatim>\<open>priority\<close> at the call) and the new state.
\<close>

definition os_thread_create ::
    "config_macro \<Rightarrow> xTaskHandle \<Rightarrow> c_char list option \<Rightarrow> int \<Rightarrow> 32 word \<Rightarrow> thread_state
      \<Rightarrow> int \<times> xTaskCreate_args \<times> thread_state" where
  "os_thread_create configMAX_PRIORITIES handle name_arg priority stack_size st =
     (let (name1, st1) =
            (case name_arg of
               None \<Rightarrow> (c_str (auto_name (count st)), st\<lparr>count := count st + 1\<rparr>)
             | Some n \<Rightarrow> (c_str n, st));
          priority1 =
            (if priority = 0 then c_div (macro_value configMAX_PRIORITIES) 2
             else if priority_ge priority configMAX_PRIORITIES
             then macro_value configMAX_PRIORITIES - 1
             else priority);
          stack_size1 = (if stack_size = 0 then 2048 else stack_size);
          task_new = \<lparr>task = handle, name = name1, unused = stack_size1\<rparr>
      in (0,
          \<lparr>pcName = name1, stack_bytes = stack_size1, uxPriority = priority1\<rparr>,
          add_thread_to_task_list task_new st1))"

text \<open>
  \<open>n\<close> calls without a name, with default priority and stack size; \<open>handles i\<close> is the
  handle of the task created by call number \<open>i\<close>.
\<close>

fun unnamed_spawns :: "config_macro \<Rightarrow> (nat \<Rightarrow> xTaskHandle) \<Rightarrow> nat \<Rightarrow> thread_state \<Rightarrow> thread_state" where
  "unnamed_spawns maxprio handles 0 st = st"
| "unnamed_spawns maxprio handles (Suc n) st =
     snd (snd (os_thread_create maxprio (handles n) None 0 0 (unnamed_spawns maxprio handles n st)))"

text \<open>Handles and a stack high-water mark for the examples.\<close>

definition example_handle :: "nat \<Rightarrow> xTaskHandle" where
  "example_handle n = 0x20002000 + 0x100 * of_nat n"

definition example_hwm :: "xTaskHandle \<Rightarrow> 32 word" where
  "example_hwm h = 100"

section \<open>Health monitor: \<^verbatim>\<open>os_thread_start\<close> and \<^verbatim>\<open>vApplicationIdleHook\<close>\<close>

text \<open>
  When the entry function of a task returns, \<^verbatim>\<open>os_thread_start\<close> looks for the first entry
  with the handle of the current task and marks it: the handle becomes null and
  \<^verbatim>\<open>unused\<close> becomes \<^verbatim>\<open>DELETED_TASK_MAGIC\<close>.
\<close>

fun mark_deleted :: "xTaskHandle \<Rightarrow> TaskList list \<Rightarrow> TaskList list" where
  "mark_deleted cur [] = []"
| "mark_deleted cur (node # rest) =
     (if task node = cur then node\<lparr>task := 0, unused := DELETED_TASK_MAGIC\<rparr> # rest
      else node # mark_deleted cur rest)"

definition os_thread_start_exit :: "xTaskHandle \<Rightarrow> thread_state \<Rightarrow> thread_state" where
  "os_thread_start_exit cur st = st\<lparr>taskList := mark_deleted cur (taskList st)\<rparr>"

text \<open>
  The first loop of the idle hook unlinks and frees every entry whose \<^verbatim>\<open>unused\<close> is the
  magic value: the entries that stay and the entries that were freed.
\<close>

fun sweep_deleted :: "TaskList list \<Rightarrow> TaskList list \<times> TaskList list" where
  "sweep_deleted [] = ([], [])"
| "sweep_deleted (node # rest) =
     (case sweep_deleted rest of
        (kept, freed) \<Rightarrow>
          if unused node = DELETED_TASK_MAGIC then (kept, node # freed) else (node # kept, freed))"

text \<open>
  The second loop stores the free stack of every entry with a handle. The kernel function
  \<^verbatim>\<open>uxTaskGetStackHighWaterMark\<close> and \<^verbatim>\<open>sizeof(portSTACK_TYPE)\<close> are parameters; the
  product is a \<^verbatim>\<open>size_t\<close>.
\<close>

fun update_unused :: "(xTaskHandle \<Rightarrow> 32 word) \<Rightarrow> 32 word \<Rightarrow> TaskList list \<Rightarrow> TaskList list" where
  "update_unused uxTaskGetStackHighWaterMark sizeof_portSTACK_TYPE [] = []"
| "update_unused uxTaskGetStackHighWaterMark sizeof_portSTACK_TYPE (node # rest) =
     (if task node \<noteq> 0
      then node\<lparr>unused := uxTaskGetStackHighWaterMark (task node) * sizeof_portSTACK_TYPE\<rparr>
      else node)
     # update_unused uxTaskGetStackHighWaterMark sizeof_portSTACK_TYPE rest"

text \<open>
  One idle cycle, run without interruption: the new state and the entries that were freed.
  The board's \<^verbatim>\<open>hw_idle_hook\<close> cannot reach the list, which is static in the file.
\<close>

definition vApplicationIdleHook ::
    "(xTaskHandle \<Rightarrow> 32 word) \<Rightarrow> 32 word \<Rightarrow> thread_state \<Rightarrow> thread_state \<times> TaskList list" where
  "vApplicationIdleHook uxTaskGetStackHighWaterMark sizeof_portSTACK_TYPE st =
     (case sweep_deleted (taskList st) of
        (kept, freed) \<Rightarrow>
          (st\<lparr>taskList := update_unused uxTaskGetStackHighWaterMark sizeof_portSTACK_TYPE kept\<rparr>,
           freed))"

text \<open>
  A registry for the examples: three tasks created without a name, of which the second has
  returned from its entry function.
\<close>

definition example_registry :: thread_state where
  "example_registry =
     os_thread_start_exit (example_handle 1)
       (unnamed_spawns (Signed_const 5) example_handle 3 thread_state_init)"

section \<open>Heap allocator: \<^verbatim>\<open>_sbrk_r\<close>\<close>

text \<open>
  The allocator of the FreeRTOS build bumps the pointer \<^verbatim>\<open>heap_end\<close> through the region
  between the linker symbols \<^verbatim>\<open>__cs3_heap_start\<close> and \<^verbatim>\<open>__cs3_heap_end\<close>, and falls back
  to \<^verbatim>\<open>heap2_end\<close> in the region between \<^verbatim>\<open>__heap2_start\<close> and \<^verbatim>\<open>__heap2_end\<close>. Both
  symbols of the second region are weak aliases of one dummy object, so they are equal when
  the linker script defines no second region.

  Addresses are 32-bit words (the targets of this build are 32-bit microcontrollers), the
  null pointer is 0, pointer comparison is unsigned, and adding the \<^verbatim>\<open>ptrdiff_t\<close> increment
  is addition modulo \<open>2\<^sup>3\<^sup>2\<close>. The addresses of the four linker symbols are parameters.
  \<^verbatim>\<open>diewith(BLINK_DIE_OUTOFMEM)\<close> is the fatal halt: the model returns it as an error.
\<close>

type_synonym addr = "32 word"

record heap_symbols =
  sym_cs3_heap_start :: addr
  sym_cs3_heap_end :: addr
  sym_heap2_start :: addr
  sym_heap2_end :: addr

text \<open>The two global bump pointers; both start as null.\<close>

record heap_vars =
  heap_end :: addr
  heap2_end :: addr

datatype blink_die = BLINK_DIE_OUTOFMEM | BLINK_DIE_STACKOVERFLOW

text \<open>The first two statements of \<^verbatim>\<open>_sbrk_r\<close>: a null pointer is set to its region's start.\<close>

definition sbrk_init :: "heap_symbols \<Rightarrow> heap_vars \<Rightarrow> heap_vars" where
  "sbrk_init syms v =
     (let v1 = (if heap_end v = 0 then v\<lparr>heap_end := sym_cs3_heap_start syms\<rparr> else v)
      in if heap2_end v1 = 0 then v1\<lparr>heap2_end := sym_heap2_start syms\<rparr> else v1)"

text \<open>The whole function: the returned pointer and the new globals, or the fatal halt.\<close>

definition sbrk_r :: "heap_symbols \<Rightarrow> 32 word \<Rightarrow> heap_vars \<Rightarrow> blink_die + addr \<times> heap_vars" where
  "sbrk_r syms incr v0 =
     (let v = sbrk_init syms v0;
          prev_heap_end = heap_end v
      in if heap_end v + incr > sym_cs3_heap_end syms then
           (if sym_heap2_start syms \<noteq> sym_heap2_end syms then
              (let prev_heap2_end = heap2_end v
               in if heap2_end v + incr \<le> sym_heap2_end syms
                  then Inr (prev_heap2_end, v\<lparr>heap2_end := heap2_end v + incr\<rparr>)
                  else Inl BLINK_DIE_OUTOFMEM)
            else Inl BLINK_DIE_OUTOFMEM)
         else Inr (prev_heap_end, v\<lparr>heap_end := heap_end v + incr\<rparr>))"

text \<open>
  A memory layout for the examples: 4 KiB of primary heap at \<^verbatim>\<open>0x20000000\<close> and 8 KiB of
  secondary heap at \<^verbatim>\<open>0x10000000\<close>.
\<close>

definition board :: heap_symbols where
  "board = \<lparr>sym_cs3_heap_start = 0x20000000, sym_cs3_heap_end = 0x20001000,
            sym_heap2_start = 0x10000000, sym_heap2_end = 0x10002000\<rparr>"

text \<open>
  A layout with the memory in the upper half of the address space, as on the MIPS targets,
  whose RAM is addressed from \<^verbatim>\<open>0xA0000000\<close>: 4 KiB of primary heap and 8 KiB of secondary
  heap.
\<close>

definition board_high :: heap_symbols where
  "board_high = \<lparr>sym_cs3_heap_start = 0xA0000000, sym_cs3_heap_end = 0xA0001000,
                 sym_heap2_start = 0xA0002000, sym_heap2_end = 0xA0004000\<rparr>"

section \<open>Program entry: \<^verbatim>\<open>main\<close> without FreeRTOS\<close>

text \<open>
  The branch of \<^verbatim>\<open>main\<close> that is compiled when \<^verbatim>\<open>__FreeRTOS__\<close> is not defined. The
  application's \<^verbatim>\<open>appl_main\<close> and, for \<^verbatim>\<open>__WIN32__\<close>, the effect of \<^verbatim>\<open>WSAStartup\<close> on
  the process are parameters; \<open>win32\<close> tells whether \<^verbatim>\<open>__WIN32__\<close> is defined. The result
  is the exit status and the process state.
\<close>

definition main ::
    "bool \<Rightarrow> ('w \<Rightarrow> 'w) \<Rightarrow> (int \<Rightarrow> string list \<Rightarrow> 'w \<Rightarrow> int \<times> 'w) \<Rightarrow> int \<Rightarrow> string list \<Rightarrow> 'w
      \<Rightarrow> int \<times> 'w" where
  "main win32 WSAStartup appl_main argc argv w =
     appl_main argc argv (if win32 then WSAStartup w else w)"

section \<open>Properties of the monotonic clock\<close>

lemma sint_LLONG_MAX: "sint LLONG_MAX = 2 ^ 63 - 1"
  by (simp add: LLONG_MAX_def)

lemma sint_increment:
  fixes l :: long_long
  assumes "l \<noteq> LLONG_MAX"
  shows "sint (l + 1) = sint l + 1"
proof -
  have "sint l \<noteq> 2 ^ 63 - 1"
    using assms sint_LLONG_MAX by (metis signed_word_eqI)
  moreover have "sint l < 2 ^ 63"
    using sint_lt [of l] by simp
  moreover have "- (2 ^ 63) \<le> sint l"
    using sint_ge [of l] by simp
  ultimately show ?thesis
    by (simp add: sint_word_ariths signed_take_bit_int_eq_self)
qed

lemma os_get_time_monotonic_fst:
  "fst (os_get_time_monotonic time lastv) = (if sint time \<le> sint lastv then lastv + 1 else time)"
  by (simp add: os_get_time_monotonic_def Let_def word_sle_eq)

lemma os_get_time_monotonic_snd:
  "snd (os_get_time_monotonic time lastv) = fst (os_get_time_monotonic time lastv)"
  by (simp add: os_get_time_monotonic_def Let_def)

lemma os_get_time_monotonic_greater:
  "lastv \<noteq> LLONG_MAX \<Longrightarrow> sint lastv < sint (fst (os_get_time_monotonic time lastv))"
  by (simp add: os_get_time_monotonic_fst sint_increment)

lemma transp_sint_less: "transp (\<lambda>a b :: long_long. sint a < sint b)"
  by (rule transpI) simp

lemma monotonic_calls_increasing:
  "below_LLONG_MAX readings lastv \<Longrightarrow> strictly_increasing (lastv # monotonic_calls readings lastv)"
proof (induction readings arbitrary: lastv)
  case Nil
  show ?case by (simp add: strictly_increasing_def)
next
  case (Cons time readings)
  obtain r where r: "os_get_time_monotonic time lastv = (r, r)"
    by (simp add: os_get_time_monotonic_def Let_def)
  from Cons.prems have ok: "lastv \<noteq> LLONG_MAX" and rest: "below_LLONG_MAX readings r"
    by (simp_all add: r)
  have step: "sint lastv < sint r"
    using os_get_time_monotonic_greater [OF ok, of time] by (simp add: r)
  have "strictly_increasing (r # monotonic_calls readings r)"
    by (rule Cons.IH [OF rest])
  with step show ?case
    unfolding strictly_increasing_def
    by (simp add: r sorted_wrt2 [OF transp_sint_less] del: sorted_wrt.simps)
qed

text \<open>
  C1 (amended). A call returns \<^verbatim>\<open>last + 1\<close> when the converted reading is not greater
  than \<^verbatim>\<open>last\<close> (signed comparison) and the reading otherwise, and stores what it returns
  as the new \<^verbatim>\<open>last\<close>. For every sequence of calls in which \<^verbatim>\<open>last\<close> is never the
  largest 64-bit value when a call is made, the stored value followed by the returned values
  is strictly increasing, whatever the readings are.
\<close>

theorem os_get_time_monotonic_strictly_increasing:
  "fst (os_get_time_monotonic time lastv) = (if sint time \<le> sint lastv then lastv + 1 else time)
   \<and> snd (os_get_time_monotonic time lastv) = fst (os_get_time_monotonic time lastv)
   \<and> (below_LLONG_MAX readings lastv \<longrightarrow>
        strictly_increasing (lastv # monotonic_calls readings lastv))"
  using os_get_time_monotonic_fst os_get_time_monotonic_snd monotonic_calls_increasing
  by blast

text \<open>
  Witness: the source stays at 5 for three calls, steps back to 3 and then jumps to 100.
\<close>

theorem os_get_time_monotonic_strictly_increasing_witness:
  "below_LLONG_MAX [5, 5, 5, 3, 100] last_init
   \<and> monotonic_calls [5, 5, 5, 3, 100] last_init = [5, 6, 7, 8, 100]
   \<and> strictly_increasing (last_init # [5, 6, 7, 8, 100])"
proof -
  have h: "below_LLONG_MAX [5, 5, 5, 3, 100] last_init"
    by (simp add: os_get_time_monotonic_def last_init_def LLONG_MAX_def word_sle_eq)
  have c: "monotonic_calls [5, 5, 5, 3, 100] last_init = [5, 6, 7, 8, 100]"
    by (simp add: os_get_time_monotonic_def last_init_def word_sle_eq)
  from os_get_time_monotonic_strictly_increasing [of 5 last_init "[5, 5, 5, 3, 100]"] h
  have "strictly_increasing (last_init # monotonic_calls [5, 5, 5, 3, 100] last_init)"
    by blast
  with h c show ?thesis by simp
qed

text \<open>
  C1 as stated fails once \<^verbatim>\<open>last\<close> has reached the largest \<^verbatim>\<open>long long\<close>: a source
  that reads \<open>2\<^sup>6\<^sup>3 - 1\<close> and then 0 gets \<open>2\<^sup>6\<^sup>3 - 1\<close> followed by \<open>- 2\<^sup>6\<^sup>3\<close>.
\<close>

theorem os_get_time_monotonic_wraps_counterexample:
  "map sint (monotonic_calls [LLONG_MAX, 0] last_init) = [2 ^ 63 - 1, - (2 ^ 63)]
   \<and> \<not> strictly_increasing (monotonic_calls [LLONG_MAX, 0] last_init)"
  by (simp add: os_get_time_monotonic_def last_init_def LLONG_MAX_def word_sle_eq
      strictly_increasing_def)

text \<open>
  C10 (amended). For every sequence of calls that starts from the initial \<^verbatim>\<open>last = 0\<close> and
  in which \<^verbatim>\<open>last\<close> is below the largest \<^verbatim>\<open>long long\<close> at each of its calls, every call of
  the sequence returns a value of at least 1, also for zero and negative readings.
\<close>

theorem os_get_time_monotonic_positive:
  "below_LLONG_MAX readings last_init \<Longrightarrow>
   \<forall>v \<in> set (monotonic_calls readings last_init). 1 \<le> sint v"
proof -
  assume "below_LLONG_MAX readings last_init"
  then have "strictly_increasing (last_init # monotonic_calls readings last_init)"
    by (rule monotonic_calls_increasing)
  then have "\<forall>v \<in> set (monotonic_calls readings last_init). sint last_init < sint v"
    by (simp add: strictly_increasing_def)
  then show ?thesis
    by (simp add: last_init_def) force
qed

text \<open>Witness: a negative reading, then two readings of zero.\<close>

theorem os_get_time_monotonic_positive_witness:
  "below_LLONG_MAX [- 7, 0, 0] last_init
   \<and> monotonic_calls [- 7, 0, 0] last_init = [1, 2, 3]
   \<and> list_all (\<lambda>v. 1 \<le> sint v) (monotonic_calls [- 7, 0, 0] last_init)"
proof -
  have h: "below_LLONG_MAX [- 7, 0, 0] last_init"
    by (simp add: os_get_time_monotonic_def last_init_def LLONG_MAX_def word_sle_eq)
  have c: "monotonic_calls [- 7, 0, 0] last_init = [1, 2, 3]"
    by (simp add: os_get_time_monotonic_def last_init_def word_sle_eq)
  from os_get_time_monotonic_positive [OF h]
  have "list_all (\<lambda>v. 1 \<le> sint v) (monotonic_calls [- 7, 0, 0] last_init)"
    unfolding list_all_iff .
  with h c show ?thesis by blast
qed

text \<open>
  C10 as stated fails after the source has read the largest \<^verbatim>\<open>long long\<close>: the next call
  returns \<open>- 2\<^sup>6\<^sup>3\<close>.
\<close>

theorem os_get_time_monotonic_negative_counterexample:
  "map sint (monotonic_calls [LLONG_MAX, - 5] last_init) = [2 ^ 63 - 1, - (2 ^ 63)]"
  by (simp add: os_get_time_monotonic_def last_init_def LLONG_MAX_def word_sle_eq)

section \<open>Properties of the one-time initialisation\<close>

lemma once_wait_skip:
  "state w \<noteq> OS_THREAD_ONCE_INPROGRESS \<Longrightarrow> once_wait usleep w = Some w"
  by (subst once_wait.simps) simp

lemma os_thread_once_first:
  assumes "state w = OS_THREAD_ONCE_NEVER" "\<not> onceMutex w"
  shows "os_thread_once sched usleep increment_counter w =
           Some (0, w\<lparr>state := OS_THREAD_ONCE_DONE, counter := counter w + 1\<rparr>)"
  using assms
  by (cases w) (simp add: os_thread_once_def os_mutex_lock_def os_mutex_unlock_def
      increment_counter_def once_wait_skip)

lemma os_thread_once_done:
  assumes "state w = OS_THREAD_ONCE_DONE" "\<not> onceMutex w"
  shows "os_thread_once sched usleep routine w = Some (0, w)"
  using assms
  by (cases w) (simp add: os_thread_once_def os_mutex_lock_def os_mutex_unlock_def once_wait_skip)

lemma once_calls_done:
  assumes "\<And>w. state w = OS_THREAD_ONCE_DONE \<Longrightarrow> \<not> onceMutex w \<Longrightarrow> call w = Some (0, w)"
    and "state w = OS_THREAD_ONCE_DONE" "\<not> onceMutex w"
  shows "once_calls call k w = Some (replicate k 0, w)"
  using assms by (induction k) simp_all

lemma os_thread_once_emscripten_first:
  "state w = OS_THREAD_ONCE_NEVER \<Longrightarrow>
   returned (os_thread_once_emscripten increment_counter w) =
     Some (0, w\<lparr>state := OS_THREAD_ONCE_DONE, counter := counter w + 1\<rparr>)"
  by (cases w) (simp add: os_thread_once_emscripten_def returned_def increment_counter_def)

lemma os_thread_once_emscripten_done:
  "state w = OS_THREAD_ONCE_DONE \<Longrightarrow>
   returned (os_thread_once_emscripten routine w) = Some (0, w)"
  by (simp add: os_thread_once_emscripten_def returned_def)

subsection \<open>Concurrent callers\<close>

lemma once_inv_start:
  assumes "state w = OS_THREAD_ONCE_NEVER" and "counter w = 0"
  shows "once_inv K (once_start w)"
  using assms by (simp add: once_inv_def once_start_def pc_ok_def initialising_def)

lemma once_inv_pc_ok: "once_inv K c \<Longrightarrow> i < K \<Longrightarrow> pc_ok (mem c) (pc_of c i)"
  unfolding once_inv_def by blast

lemma once_inv_holder:
  "once_inv K c \<Longrightarrow> i < K \<Longrightarrow> j < K \<Longrightarrow> i \<noteq> j \<Longrightarrow>
   \<not> (holds_mutex (pc_of c i) \<and> holds_mutex (pc_of c j))"
  unfolding once_inv_def by blast

lemma once_inv_single:
  "once_inv K c \<Longrightarrow> i < K \<Longrightarrow> j < K \<Longrightarrow> i \<noteq> j \<Longrightarrow>
   \<not> (initialising (pc_of c i) \<and> initialising (pc_of c j))"
  unfolding once_inv_def by blast

lemma once_inv_counter:
  "once_inv K c \<Longrightarrow> state (mem c) = OS_THREAD_ONCE_NEVER \<Longrightarrow> counter (mem c) = 0"
  "once_inv K c \<Longrightarrow> state (mem c) = OS_THREAD_ONCE_DONE \<Longrightarrow> counter (mem c) = 1"
  unfolding once_inv_def by blast+

lemma once_state_cases:
  "g = OS_THREAD_ONCE_NEVER \<or> g = OS_THREAD_ONCE_INPROGRESS \<or> g = OS_THREAD_ONCE_DONE"
  by (cases g) simp_all

lemmas thread_step_simps =
  thread_step_def goto_def pc_ok_def initialising_def os_mutex_lock_def os_mutex_unlock_def
  increment_counter_def

lemma pc_ok_step_self:
  assumes step: "thread_step increment_counter i c = Some c'" and inv: "once_inv K c"
    and i: "i < K"
  shows "pc_ok (mem c') (pc_of c' i)"
  using step once_inv_pc_ok [OF inv i] once_inv_counter [OF inv]
    once_state_cases [of "state (mem c)"]
  by (cases "pc_of c i") (auto simp: thread_step_simps split: if_splits)

lemma pc_ok_step_other:
  assumes step: "thread_step increment_counter i c = Some c'" and inv: "once_inv K c"
    and i: "i < K" and j: "j < K" and ne: "j \<noteq> i"
  shows "pc_ok (mem c') (pc_of c' j)"
  using step once_inv_pc_ok [OF inv i] once_inv_pc_ok [OF inv j]
    once_inv_holder [OF inv i j] once_inv_single [OF inv i j] ne
  by (cases "pc_of c i") (auto simp: thread_step_simps split: if_splits)

lemma holder_step:
  assumes step: "thread_step increment_counter i c = Some c'" and inv: "once_inv K c"
    and i: "i < K" and j: "j < K" and k: "k < K" and ne: "j \<noteq> k"
  shows "\<not> (holds_mutex (pc_of c' j) \<and> holds_mutex (pc_of c' k))"
proof -
  have others: "pc_of c' l = pc_of c l" if "l \<noteq> i" for l
    using step that
    by (cases "pc_of c i") (auto simp: thread_step_simps split: if_splits)
  have gain: "holds_mutex (pc_of c' i) \<Longrightarrow> \<not> holds_mutex (pc_of c i) \<Longrightarrow> \<not> onceMutex (mem c)"
    using step
    by (cases "pc_of c i") (auto simp: thread_step_simps split: if_splits)
  show ?thesis
  proof (cases "j = i \<or> k = i")
    case False
    then show ?thesis
      using others once_inv_holder [OF inv j k ne] by simp
  next
    case True
    then obtain l where l: "l < K" "l \<noteq> i" and jk: "(j = i \<and> k = l) \<or> (j = l \<and> k = i)"
      using j k ne by blast
    have "\<not> (holds_mutex (pc_of c' i) \<and> holds_mutex (pc_of c l))"
    proof
      assume h: "holds_mutex (pc_of c' i) \<and> holds_mutex (pc_of c l)"
      then have locked: "onceMutex (mem c)"
        using once_inv_pc_ok [OF inv l(1)] by (simp add: pc_ok_def)
      with gain h have "holds_mutex (pc_of c i)"
        by blast
      with h once_inv_holder [OF inv i l(1)] l(2) show False
        by blast
    qed
    with jk others [OF l(2)] show ?thesis
      by auto
  qed
qed

lemma single_step:
  assumes step: "thread_step increment_counter i c = Some c'" and inv: "once_inv K c"
    and i: "i < K" and j: "j < K" and k: "k < K" and ne: "j \<noteq> k"
  shows "\<not> (initialising (pc_of c' j) \<and> initialising (pc_of c' k))"
proof -
  have others: "pc_of c' l = pc_of c l" if "l \<noteq> i" for l
    using step that
    by (cases "pc_of c i") (auto simp: thread_step_simps split: if_splits)
  have gain: "initialising (pc_of c' i) \<Longrightarrow> \<not> initialising (pc_of c i) \<Longrightarrow>
      state (mem c) = OS_THREAD_ONCE_NEVER"
    using step once_inv_pc_ok [OF inv i]
    by (cases "pc_of c i") (auto simp: thread_step_simps split: if_splits)
  show ?thesis
  proof (cases "j = i \<or> k = i")
    case False
    then show ?thesis
      using others once_inv_single [OF inv j k ne] by simp
  next
    case True
    then obtain l where l: "l < K" "l \<noteq> i" and jk: "(j = i \<and> k = l) \<or> (j = l \<and> k = i)"
      using j k ne by blast
    have "\<not> (initialising (pc_of c' i) \<and> initialising (pc_of c l))"
    proof
      assume h: "initialising (pc_of c' i) \<and> initialising (pc_of c l)"
      then have "state (mem c) = OS_THREAD_ONCE_INPROGRESS"
        using once_inv_pc_ok [OF inv l(1)] by (auto simp: pc_ok_def initialising_def)
      with gain h have "initialising (pc_of c i)"
        by auto
      with h once_inv_single [OF inv i l(1)] l(2) show False
        by blast
    qed
    with jk others [OF l(2)] show ?thesis
      by auto
  qed
qed

lemma counter_step:
  assumes step: "thread_step increment_counter i c = Some c'" and inv: "once_inv K c"
    and i: "i < K"
  shows "(state (mem c') = OS_THREAD_ONCE_NEVER \<longrightarrow> counter (mem c') = 0)
       \<and> (state (mem c') = OS_THREAD_ONCE_DONE \<longrightarrow> counter (mem c') = 1)"
  using step once_inv_pc_ok [OF inv i] once_inv_counter [OF inv]
  by (cases "pc_of c i") (auto simp: thread_step_simps split: if_splits)

lemma once_inv_step:
  assumes step: "thread_step increment_counter i c = Some c'" and inv: "once_inv K c"
    and i: "i < K"
  shows "once_inv K c'"
proof -
  have "pc_ok (mem c') (pc_of c' j)" if "j < K" for j
    using pc_ok_step_self [OF step inv i] pc_ok_step_other [OF step inv i that]
    by (cases "j = i") simp_all
  moreover have "j = k" if "j < K" "k < K" "holds_mutex (pc_of c' j) \<and> holds_mutex (pc_of c' k)"
    for j k
    using holder_step [OF step inv i that(1,2)] that(3) by blast
  moreover have "j = k" if "j < K" "k < K" "initialising (pc_of c' j) \<and> initialising (pc_of c' k)"
    for j k
    using single_step [OF step inv i that(1,2)] that(3) by blast
  ultimately show ?thesis
    unfolding once_inv_def using counter_step [OF step inv i] by blast
qed

lemma once_inv_run:
  assumes "run_schedule increment_counter sched c = Some c'" and "once_inv K c"
    and "\<forall>i \<in> set sched. i < K"
  shows "once_inv K c'"
  using assms
proof (induction sched arbitrary: c)
  case Nil
  then show ?case by simp
next
  case (Cons i sched)
  from Cons.prems(1) obtain d where d: "thread_step increment_counter i c = Some d"
    and rest: "run_schedule increment_counter sched d = Some c'"
    by (auto split: option.splits)
  from Cons.prems(3) have i: "i < K" and others: "\<forall>i \<in> set sched. i < K"
    by simp_all
  show ?case
    by (rule Cons.IH [OF rest once_inv_step [OF d Cons.prems(2) i] others])
qed

lemma once_inv_all_returned:
  assumes inv: "once_inv K c" and K: "1 \<le> K" and ret: "\<forall>i<K. \<exists>r. pc_of c i = Returned r"
  shows "counter (mem c) = 1 \<and> state (mem c) = OS_THREAD_ONCE_DONE
       \<and> (\<forall>i<K. pc_of c i = Returned 0)"
proof -
  have zero: "0 < K"
    using K by simp
  from ret zero obtain r where "pc_of c 0 = Returned r"
    by blast
  with once_inv_pc_ok [OF inv zero] have g: "state (mem c) = OS_THREAD_ONCE_DONE"
    by (simp add: pc_ok_def)
  have "pc_of c i = Returned 0" if "i < K" for i
  proof -
    from ret that obtain r where "pc_of c i = Returned r"
      by blast
    with once_inv_pc_ok [OF inv that] show ?thesis
      by (simp add: pc_ok_def)
  qed
  with g once_inv_counter(2) [OF inv] show ?thesis
    by simp
qed

text \<open>
  For every number of callers there is a schedule after which all of them have returned: the
  one in which they run one after the other.
\<close>

lemma run_schedule_append:
  "run_schedule routine (a @ b) c =
     (case run_schedule routine a c of None \<Rightarrow> None | Some c' \<Rightarrow> run_schedule routine b c')"
  by (induction a arbitrary: c) (simp_all split: option.splits)

lemma later_callers_bound: "\<forall>i \<in> set (later_callers n). i \<le> n"
  by (induction n) auto

lemma first_caller_runs:
  assumes "state w = OS_THREAD_ONCE_NEVER" "\<not> onceMutex w" "counter w = 0"
  shows "run_schedule increment_counter [0, 0, 0, 0, 0, 0, 0, 0, 0] (once_start w) =
           Some \<lparr>pc_of = (\<lambda>i. if i \<le> 0 then Returned 0 else At_lock),
                 mem = w\<lparr>state := OS_THREAD_ONCE_DONE, counter := 1\<rparr>\<rparr>"
  using assms by (cases w) (simp add: thread_step_simps once_start_def fun_eq_iff)

lemma later_caller_runs:
  assumes "state w = OS_THREAD_ONCE_DONE" "\<not> onceMutex w"
  shows "run_schedule increment_counter [Suc n, Suc n, Suc n, Suc n]
           \<lparr>pc_of = (\<lambda>i. if i \<le> n then Returned 0 else At_lock), mem = w\<rparr> =
         Some \<lparr>pc_of = (\<lambda>i. if i \<le> Suc n then Returned 0 else At_lock), mem = w\<rparr>"
  using assms by (cases w) (auto simp: thread_step_simps fun_eq_iff)

lemma solo_schedule_runs:
  assumes "state w = OS_THREAD_ONCE_NEVER" "\<not> onceMutex w" "counter w = 0"
  shows "run_schedule increment_counter ([0, 0, 0, 0, 0, 0, 0, 0, 0] @ later_callers n)
           (once_start w) =
         Some \<lparr>pc_of = (\<lambda>i. if i \<le> n then Returned 0 else At_lock),
               mem = w\<lparr>state := OS_THREAD_ONCE_DONE, counter := 1\<rparr>\<rparr>"
proof (induction n)
  case 0
  show ?case using first_caller_runs [OF assms] by simp
next
  case (Suc n)
  let ?w = "w\<lparr>state := OS_THREAD_ONCE_DONE, counter := 1\<rparr>"
  have later: "run_schedule increment_counter [Suc n, Suc n, Suc n, Suc n]
           \<lparr>pc_of = (\<lambda>i. if i \<le> n then Returned 0 else At_lock), mem = ?w\<rparr> =
         Some \<lparr>pc_of = (\<lambda>i. if i \<le> Suc n then Returned 0 else At_lock), mem = ?w\<rparr>"
    by (rule later_caller_runs) (use assms in simp_all)
  have "run_schedule increment_counter
          (([0, 0, 0, 0, 0, 0, 0, 0, 0] @ later_callers n) @ [Suc n, Suc n, Suc n, Suc n])
          (once_start w) =
        (case run_schedule increment_counter ([0, 0, 0, 0, 0, 0, 0, 0, 0] @ later_callers n)
                (once_start w) of
           None \<Rightarrow> None
         | Some c' \<Rightarrow> run_schedule increment_counter [Suc n, Suc n, Suc n, Suc n] c')"
    by (rule run_schedule_append)
  also have "\<dots> = run_schedule increment_counter [Suc n, Suc n, Suc n, Suc n]
          \<lparr>pc_of = (\<lambda>i. if i \<le> n then Returned 0 else At_lock), mem = ?w\<rparr>"
    by (simp only: Suc.IH option.case)
  also note later
  finally show ?case
    by (simp only: later_callers.simps append_assoc)
qed

lemma once_schedule_completes:
  assumes "state w = OS_THREAD_ONCE_NEVER" "\<not> onceMutex w" "counter w = 0" "1 \<le> K"
  shows "\<exists>c. run_schedule increment_counter (solo_schedule K) (once_start w) = Some c
           \<and> (\<forall>i \<in> set (solo_schedule K). i < K) \<and> (\<forall>i<K. pc_of c i = Returned 0)"
proof -
  obtain n where K: "K = Suc n"
    using assms(4) by (cases K) simp_all
  have "\<forall>i \<in> set (solo_schedule K). i < K"
    using later_callers_bound [of n] by (auto simp: solo_schedule_def K)
  then show ?thesis
    using solo_schedule_runs [OF assms(1-3), of n] by (simp add: solo_schedule_def K)
qed


text \<open>
  C3. Take a guard in state Never whose mutex is free, a counter at zero and the routine
  that increments the counter. \<open>K \<ge> 1\<close> calls made one after the other all return 0
  and leave the guard Done and the counter at 1: with the scheduler running, with the
  scheduler not running, and in the version without threads; nothing else changes. And
  when \<open>K\<close> tasks run the scheduler-running branch concurrently, in whatever order their
  statements are interleaved, then once all of them have returned, each has returned 0, the
  guard is Done and the counter is 1.
\<close>

theorem os_thread_once_runs_once:
  assumes "state w = OS_THREAD_ONCE_NEVER" and "\<not> onceMutex w" and "counter w = 0" and "1 \<le> K"
  shows "once_calls (os_thread_once True usleep increment_counter) K w =
           Some (replicate K 0, w\<lparr>state := OS_THREAD_ONCE_DONE, counter := 1\<rparr>)
       \<and> once_calls (os_thread_once False usleep increment_counter) K w =
           Some (replicate K 0, w\<lparr>state := OS_THREAD_ONCE_DONE, counter := 1\<rparr>)
       \<and> once_calls (\<lambda>w. returned (os_thread_once_emscripten increment_counter w)) K w =
           Some (replicate K 0, w\<lparr>state := OS_THREAD_ONCE_DONE, counter := 1\<rparr>)
       \<and> (run_schedule increment_counter sched (once_start w) = Some c
            \<and> (\<forall>i \<in> set sched. i < K) \<and> (\<forall>i<K. \<exists>r. pc_of c i = Returned r) \<longrightarrow>
          counter (mem c) = 1 \<and> state (mem c) = OS_THREAD_ONCE_DONE
            \<and> (\<forall>i<K. pc_of c i = Returned 0))"
proof -
  obtain k where K: "K = Suc k"
    using \<open>1 \<le> K\<close> by (cases K) simp_all
  let ?w' = "w\<lparr>state := OS_THREAD_ONCE_DONE, counter := 1\<rparr>"
  have fin: "state ?w' = OS_THREAD_ONCE_DONE" "\<not> onceMutex ?w'"
    using assms by simp_all
  have first: "os_thread_once sched usleep increment_counter w = Some (0, ?w')" for sched
    using os_thread_once_first [OF assms(1,2)] assms(3) by simp
  have rest: "once_calls (os_thread_once sched usleep increment_counter) k ?w' =
      Some (replicate k 0, ?w')" for sched
    by (rule once_calls_done [OF _ fin]) (rule os_thread_once_done)
  have efirst: "returned (os_thread_once_emscripten increment_counter w) = Some (0, ?w')"
    using os_thread_once_emscripten_first [OF assms(1)] assms(3) by simp
  have erest: "once_calls (\<lambda>w. returned (os_thread_once_emscripten increment_counter w)) k ?w' =
      Some (replicate k 0, ?w')"
    by (rule once_calls_done [OF _ fin]) (rule os_thread_once_emscripten_done)
  have sequential:
    "once_calls (os_thread_once True usleep increment_counter) K w =
       Some (replicate K 0, ?w')"
    "once_calls (os_thread_once False usleep increment_counter) K w =
       Some (replicate K 0, ?w')"
    "once_calls (\<lambda>w. returned (os_thread_once_emscripten increment_counter w)) K w =
       Some (replicate K 0, ?w')"
    by (simp_all only: K once_calls.simps first rest efirst erest option.case prod.case
        replicate_Suc)
  have concurrent: "counter (mem c) = 1 \<and> state (mem c) = OS_THREAD_ONCE_DONE
        \<and> (\<forall>i<K. pc_of c i = Returned 0)"
    if run: "run_schedule increment_counter sched (once_start w) = Some c"
      and tasks: "\<forall>i \<in> set sched. i < K" and ret: "\<forall>i<K. \<exists>r. pc_of c i = Returned r"
  proof -
    have "once_inv K c"
      by (rule once_inv_run [OF run once_inv_start [OF assms(1,3)] tasks])
    then show ?thesis
      by (rule once_inv_all_returned [OF _ assms(4) ret])
  qed
  from sequential concurrent show ?thesis
    by blast
qed

text \<open>
  Witness: three calls in a row with a fresh guard; and two concurrent callers, of which the
  second finds the guard InProgress, sleeps once and polls again after the first has
  finished the routine.
\<close>

theorem os_thread_once_runs_once_witness:
  "once_calls (os_thread_once True id increment_counter) 2 fresh_guard =
     Some ([0, 0], \<lparr>state = OS_THREAD_ONCE_DONE, onceMutex = False, counter = 1\<rparr>)
   \<and> once_calls (os_thread_once False id increment_counter) 2 fresh_guard =
     Some ([0, 0], \<lparr>state = OS_THREAD_ONCE_DONE, onceMutex = False, counter = 1\<rparr>)
   \<and> once_calls (\<lambda>w. returned (os_thread_once_emscripten increment_counter w)) 2 fresh_guard =
     Some ([0, 0], \<lparr>state = OS_THREAD_ONCE_DONE, onceMutex = False, counter = 1\<rparr>)
   \<and> map_option (\<lambda>c. (pc_of c 0, pc_of c 1, mem c))
        (run_schedule increment_counter [0, 0, 0, 0, 1, 1, 1, 1, 0, 0, 0, 0, 0, 1, 1, 1, 1]
           (once_start fresh_guard)) =
     Some (Returned 0, Returned 0,
           \<lparr>state = OS_THREAD_ONCE_DONE, onceMutex = False, counter = 1\<rparr>)"
proof -
  have h: "state fresh_guard = OS_THREAD_ONCE_NEVER" "\<not> onceMutex fresh_guard"
      "counter fresh_guard = 0" "1 \<le> (2 :: nat)"
    by (simp_all add: fresh_guard_def)
  obtain c where run:
    "run_schedule increment_counter [0, 0, 0, 0, 1, 1, 1, 1, 0, 0, 0, 0, 0, 1, 1, 1, 1]
       (once_start fresh_guard) = Some c"
    and pcs: "pc_of c 0 = Returned 0" "pc_of c 1 = Returned 0"
    and mutex: "onceMutex (mem c) = False"
    by (simp add: thread_step_simps once_start_def fresh_guard_def)
  have tasks: "\<forall>i \<in> set [0, 0, 0, 0, 1, 1, 1, 1, 0, 0, 0, 0, 0, 1, 1, 1, 1]. i < (2 :: nat)"
    by simp
  have ret: "\<forall>i<2. \<exists>r. pc_of c i = Returned r"
    using pcs by (auto simp: less_2_cases_iff)
  note inst = os_thread_once_runs_once [OF h, of id _ c]
  from inst run tasks ret
  have "counter (mem c) = 1 \<and> state (mem c) = OS_THREAD_ONCE_DONE"
    by blast
  with mutex have "mem c = \<lparr>state = OS_THREAD_ONCE_DONE, onceMutex = False, counter = 1\<rparr>"
    by (cases "mem c") simp
  with run pcs have conc:
    "map_option (\<lambda>c. (pc_of c 0, pc_of c 1, mem c))
        (run_schedule increment_counter [0, 0, 0, 0, 1, 1, 1, 1, 0, 0, 0, 0, 0, 1, 1, 1, 1]
           (once_start fresh_guard)) =
     Some (Returned 0, Returned 0,
           \<lparr>state = OS_THREAD_ONCE_DONE, onceMutex = False, counter = 1\<rparr>)"
    by simp
  have r: "replicate 2 (0 :: int) = [0, 0]"
    by (simp add: numeral_2_eq_2)
  from inst conc show ?thesis
    by (simp add: fresh_guard_def r)
qed

text \<open>
  C7. The FreeRTOS version called while the scheduler is not running, with a guard that is
  InProgress, returns 0: it neither runs the routine nor halts, and the guard stays
  InProgress. The version for the target without threads halts in \<^verbatim>\<open>DIE\<close> on the same
  input.
\<close>

theorem os_thread_once_inprogress_returns:
  "os_thread_once False id increment_counter
       \<lparr>state = OS_THREAD_ONCE_INPROGRESS, onceMutex = False, counter = 0\<rparr> =
     Some (0, \<lparr>state = OS_THREAD_ONCE_INPROGRESS, onceMutex = False, counter = 0\<rparr>)
   \<and> os_thread_once_emscripten increment_counter
       \<lparr>state = OS_THREAD_ONCE_INPROGRESS, onceMutex = False, counter = 0\<rparr> =
     Inl (DIE ''Recursive call to os_thread_once.'')"
  by (simp add: os_thread_once_def os_thread_once_emscripten_def)

section \<open>Properties of thread creation\<close>

lemma auto_name_eq:
  "auto_name c = bytes ''thread.'' @ [ucast (48 + c div 10), ucast (48 + c mod 10), 0]"
  by (simp add: auto_name_def c_str_def strcpy_def bytes_def)

lemma unat_low_digit:
  fixes c :: "32 word"
  shows "unat (ucast (48 + c mod 10) :: 8 word) = 48 + unat c mod 10"
proof -
  have m: "unat (c mod 10) = unat c mod 10"
    by (simp add: unat_mod)
  have "unat (48 :: 32 word) + unat (c mod 10) < 2 ^ LENGTH(32)"
    by (simp add: m) 
  then have "unat (48 + c mod 10) = 48 + unat c mod 10"
    using unat_add_lem [of "48 :: 32 word" "c mod 10"] by (simp add: m)
  then show ?thesis
    by (simp add: unsigned_ucast_eq take_bit_eq_mod)
qed

lemma unat_high_digit:
  fixes c :: "32 word"
  assumes "unat c < 2080"
  shows "unat (ucast (48 + c div 10) :: 8 word) = 48 + unat c div 10"
proof -
  have d: "unat (c div 10) = unat c div 10"
    by (simp add: unat_div)
  have "unat (48 :: 32 word) + unat (c div 10) < 2 ^ LENGTH(32)"
    using assms by (simp add: d)
  then have "unat (48 + c div 10) = 48 + unat c div 10"
    using unat_add_lem [of "48 :: 32 word" "c div 10"] by (simp add: d)
  then show ?thesis
    using assms by (simp add: unsigned_ucast_eq take_bit_eq_mod)
qed

lemma c_str_auto_name:
  fixes c :: "32 word"
  assumes "unat c < 2080"
  shows "c_str (auto_name c) = bytes ''thread.'' @ [ucast (48 + c div 10), ucast (48 + c mod 10)]"
proof -
  have "unat (ucast (48 + c div 10) :: 8 word) \<noteq> 0"
    using unat_high_digit [OF assms] by simp
  then have h: "(ucast (48 + c div 10) :: 8 word) \<noteq> 0"
    by auto
  have "unat (ucast (48 + c mod 10) :: 8 word) \<noteq> 0"
    using unat_low_digit [of c] by simp
  then have l: "(ucast (48 + c mod 10) :: 8 word) \<noteq> 0"
    by auto
  show ?thesis
    by (simp add: auto_name_eq c_str_def bytes_def h l)
qed

lemma auto_name_inj:
  fixes c d :: "32 word"
  assumes "unat c < 2080" "unat d < 2080" "c_str (auto_name c) = c_str (auto_name d)"
  shows "c = d"
proof -
  from assms have "(ucast (48 + c div 10) :: 8 word) = ucast (48 + d div 10)"
    and "(ucast (48 + c mod 10) :: 8 word) = ucast (48 + d mod 10)"
    by (simp_all add: c_str_auto_name)
  then have "unat (ucast (48 + c div 10) :: 8 word) = unat (ucast (48 + d div 10) :: 8 word)"
    and "unat (ucast (48 + c mod 10) :: 8 word) = unat (ucast (48 + d mod 10) :: 8 word)"
    by simp_all
  then have "unat c div 10 = unat d div 10" and "unat c mod 10 = unat d mod 10"
    using assms(1,2) by (simp_all add: unat_high_digit unat_low_digit)
  then have "unat c = unat d"
    by (metis div_mult_mod_eq)
  then show ?thesis by (simp add: word_unat_eq_iff)
qed

lemma os_thread_create_parts:
  "uxPriority (fst (snd (os_thread_create M h nm p ss st))) =
     (if p = 0 then c_div (macro_value M) 2
      else if priority_ge p M then macro_value M - 1 else p)"
  "stack_bytes (fst (snd (os_thread_create M h nm p ss st))) = (if ss = 0 then 2048 else ss)"
  "pcName (fst (snd (os_thread_create M h None p ss st))) = c_str (auto_name (count st))"
  "count (snd (snd (os_thread_create M h None p ss st))) = count st + 1"
  "taskList (snd (snd (os_thread_create M h None p ss st))) =
     \<lparr>task = h, name = c_str (auto_name (count st)), unused = (if ss = 0 then 2048 else ss)\<rparr>
       # taskList st"
  by (simp_all add: os_thread_create_def Let_def add_thread_to_task_list_def split: option.split)

lemma c_div_2: "0 \<le> M \<Longrightarrow> c_div M 2 = M div 2"
  by (simp add: c_div_def)

lemma to_unsigned_nonneg: "0 \<le> i \<Longrightarrow> i < 2 ^ 31 \<Longrightarrow> to_unsigned i = i"
  by (simp add: to_unsigned_def)

lemma to_unsigned_neg: "- (2 ^ 31) \<le> i \<Longrightarrow> i < 0 \<Longrightarrow> to_unsigned i = i + 2 ^ 32"
proof -
  assume "- (2 ^ 31) \<le> i" and "i < 0"
  then have "0 \<le> i + 2 ^ 32" and "i + 2 ^ 32 < 2 ^ 32"
    by simp_all
  then have "(i + 2 ^ 32) mod 2 ^ 32 = i + 2 ^ 32"
    by (rule mod_pos_pos_trivial)
  then show ?thesis
    by (simp add: to_unsigned_def)
qed

lemma priority_ge_in_range:
  assumes "0 \<le> p" and "p < 2 ^ 31"
  shows "priority_ge p M = (macro_value M \<le> p)"
  using assms by (cases M) (simp_all add: to_unsigned_nonneg)

text \<open>
  C4 (amended). The priority is a 32-bit \<^verbatim>\<open>int\<close> and \<^verbatim>\<open>configMAX_PRIORITIES\<close> lies
  between 1 and \<open>2\<^sup>3\<^sup>1\<close>. A requested priority of 0 is replaced by
  \<^verbatim>\<open>configMAX_PRIORITIES / 2\<close>, a priority of at least \<^verbatim>\<open>configMAX_PRIORITIES\<close> by
  \<^verbatim>\<open>configMAX_PRIORITIES - 1\<close>, and a priority above 0 and below
  \<^verbatim>\<open>configMAX_PRIORITIES\<close> is kept. So, with at least two priority levels, every requested
  priority that is not negative ends in the range from 1 to \<^verbatim>\<open>configMAX_PRIORITIES - 1\<close>.
  A negative priority is not raised to 1: where the macro is a signed constant it is passed
  on as it is, and where the macro is unsigned it is replaced by
  \<^verbatim>\<open>configMAX_PRIORITIES - 1\<close>. A requested stack size of 0 is replaced by 2048, any other
  size is kept.
\<close>

theorem os_thread_create_priority_stack:
  "uxPriority (fst (snd (os_thread_create M h nm 0 ss st))) = c_div (macro_value M) 2
   \<and> (1 \<le> macro_value M \<and> macro_value M \<le> p \<and> p < 2 ^ 31 \<longrightarrow>
        uxPriority (fst (snd (os_thread_create M h nm p ss st))) = macro_value M - 1)
   \<and> (0 < p \<and> p < macro_value M \<and> macro_value M \<le> 2 ^ 31 \<longrightarrow>
        uxPriority (fst (snd (os_thread_create M h nm p ss st))) = p)
   \<and> (2 \<le> macro_value M \<and> macro_value M \<le> 2 ^ 31 \<and> 0 \<le> p \<and> p < 2 ^ 31 \<longrightarrow>
        1 \<le> uxPriority (fst (snd (os_thread_create M h nm p ss st)))
        \<and> uxPriority (fst (snd (os_thread_create M h nm p ss st))) \<le> macro_value M - 1)
   \<and> (1 \<le> m \<and> p < 0 \<longrightarrow>
        uxPriority (fst (snd (os_thread_create (Signed_const m) h nm p ss st))) = p)
   \<and> (m \<le> 2 ^ 31 \<and> - (2 ^ 31) \<le> p \<and> p < 0 \<longrightarrow>
        uxPriority (fst (snd (os_thread_create (Unsigned_const m) h nm p ss st))) = m - 1)
   \<and> stack_bytes (fst (snd (os_thread_create M h nm p 0 st))) = 2048
   \<and> (ss \<noteq> 0 \<longrightarrow> stack_bytes (fst (snd (os_thread_create M h nm p ss st))) = ss)"
proof -
  have zero: "uxPriority (fst (snd (os_thread_create M h nm 0 ss st))) = c_div (macro_value M) 2"
    by (simp add: os_thread_create_parts)
  have high: "uxPriority (fst (snd (os_thread_create M h nm p ss st))) = macro_value M - 1"
    if "1 \<le> macro_value M" "macro_value M \<le> p" "p < 2 ^ 31"
    using that by (simp add: os_thread_create_parts priority_ge_in_range)
  have kept: "uxPriority (fst (snd (os_thread_create M h nm p ss st))) = p"
    if "0 < p" "p < macro_value M" "macro_value M \<le> 2 ^ 31"
    using that by (simp add: os_thread_create_parts priority_ge_in_range)
  have range: "1 \<le> uxPriority (fst (snd (os_thread_create M h nm p ss st)))
        \<and> uxPriority (fst (snd (os_thread_create M h nm p ss st))) \<le> macro_value M - 1"
    if "2 \<le> macro_value M" "macro_value M \<le> 2 ^ 31" "0 \<le> p" "p < 2 ^ 31"
  proof -
    from that have "1 \<le> macro_value M div 2" and "macro_value M div 2 \<le> macro_value M - 1"
      by presburger+
    with that show ?thesis
      by (simp add: os_thread_create_parts priority_ge_in_range c_div_2)
  qed
  have signed: "uxPriority (fst (snd (os_thread_create (Signed_const m) h nm p ss st))) = p"
    if "1 \<le> m" "p < 0"
    using that by (simp add: os_thread_create_parts)
  have unsigned: "uxPriority (fst (snd (os_thread_create (Unsigned_const m) h nm p ss st))) = m - 1"
    if "m \<le> 2 ^ 31" "- (2 ^ 31) \<le> p" "p < 0"
    using that by (simp add: os_thread_create_parts to_unsigned_neg)
  have stack: "stack_bytes (fst (snd (os_thread_create M h nm p 0 st))) = 2048"
      "ss \<noteq> 0 \<longrightarrow> stack_bytes (fst (snd (os_thread_create M h nm p ss st))) = ss"
    by (simp_all add: os_thread_create_parts)
  from zero high kept range signed unsigned stack show ?thesis
    by blast
qed

text \<open>
  Witness, with five priority levels: the priorities 0, 7 and 3 under either form of the
  macro, and the priority -2 under each.
\<close>

theorem os_thread_create_priority_stack_witness:
  "uxPriority (fst (snd (os_thread_create (Signed_const 5) (example_handle 0) None 0 0
       thread_state_init))) = 2
   \<and> uxPriority (fst (snd (os_thread_create (Unsigned_const 5) (example_handle 0) None 7 0
       thread_state_init))) = 4
   \<and> uxPriority (fst (snd (os_thread_create (Unsigned_const 5) (example_handle 0) None 3 0
       thread_state_init))) = 3
   \<and> uxPriority (fst (snd (os_thread_create (Signed_const 5) (example_handle 0) None (- 2) 0
       thread_state_init))) = - 2
   \<and> uxPriority (fst (snd (os_thread_create (Unsigned_const 5) (example_handle 0) None (- 2) 0
       thread_state_init))) = 4
   \<and> stack_bytes (fst (snd (os_thread_create (Signed_const 5) (example_handle 0) None 3 0
       thread_state_init))) = 2048
   \<and> stack_bytes (fst (snd (os_thread_create (Signed_const 5) (example_handle 0) None 3 4096
       thread_state_init))) = 4096"
proof -
  note signed = os_thread_create_priority_stack
      [where M = "Signed_const 5" and m = 5 and h = "example_handle 0" and nm = None
         and st = thread_state_init]
  note unsigned = os_thread_create_priority_stack
      [where M = "Unsigned_const 5" and m = 5 and h = "example_handle 0" and nm = None
         and st = thread_state_init]
  have a: "uxPriority (fst (snd (os_thread_create (Signed_const 5) (example_handle 0) None 0 0
       thread_state_init))) = 2"
    using signed [where p = 0 and ss = 0] by (simp add: c_div_def)
  have b: "uxPriority (fst (snd (os_thread_create (Unsigned_const 5) (example_handle 0) None 7 0
       thread_state_init))) = 4"
    using unsigned [where p = 7 and ss = 0] by simp
  have c: "uxPriority (fst (snd (os_thread_create (Unsigned_const 5) (example_handle 0) None 3 0
       thread_state_init))) = 3"
    using unsigned [where p = 3 and ss = 0] by simp
  have d: "uxPriority (fst (snd (os_thread_create (Signed_const 5) (example_handle 0) None (- 2) 0
       thread_state_init))) = - 2"
    using signed [where p = "- 2" and ss = 0] by simp
  have e: "uxPriority (fst (snd (os_thread_create (Unsigned_const 5) (example_handle 0) None (- 2) 0
       thread_state_init))) = 4"
    using unsigned [where p = "- 2" and ss = 0] by simp
  have f: "stack_bytes (fst (snd (os_thread_create (Signed_const 5) (example_handle 0) None 3 0
       thread_state_init))) = 2048"
      "stack_bytes (fst (snd (os_thread_create (Signed_const 5) (example_handle 0) None 3 4096
       thread_state_init))) = 4096"
    using signed [where p = 3 and ss = 4096] by simp_all
  from a b c d e f show ?thesis by blast
qed

text \<open>
  C4 as stated fails for a negative priority, which \<^verbatim>\<open>int priority\<close> admits, in a build
  whose macro is a signed constant: the priority is neither the 0 of the default nor too
  large, and nothing raises it to 1. Under either form of the macro it fails for the default
  when there is one priority level only: the default is then 0.
\<close>

theorem os_thread_create_negative_priority_counterexample:
  "uxPriority (fst (snd (os_thread_create (Signed_const 5) (example_handle 0) None (- 1) 0
       thread_state_init))) = - 1
   \<and> uxPriority (fst (snd (os_thread_create (Signed_const 1) (example_handle 0) None 0 0
       thread_state_init))) = 0
   \<and> uxPriority (fst (snd (os_thread_create (Unsigned_const 1) (example_handle 0) None 0 0
       thread_state_init))) = 0"
  by (simp add: os_thread_create_parts c_div_def)

lemma unnamed_spawns_count:
  "count (unnamed_spawns M hs n st) = count st + of_nat n"
  by (induction n) (simp_all add: os_thread_create_parts)

lemma unnamed_spawns_names:
  "map name (taskList (unnamed_spawns M hs n st)) =
     rev (map (\<lambda>i. c_str (auto_name (count st + of_nat i))) [0..<n]) @ map name (taskList st)"
  by (induction n) (simp_all add: os_thread_create_parts unnamed_spawns_count)

lemma auto_names_distinct:
  assumes "n \<le> 2080"
  shows "distinct (map (\<lambda>i. c_str (auto_name (of_nat i :: 32 word))) [0..<n])"
proof -
  have "inj_on (\<lambda>i. c_str (auto_name (of_nat i :: 32 word))) {0..<n}"
  proof (rule inj_onI)
    fix i j
    assume i: "i \<in> {0..<n}" and j: "j \<in> {0..<n}"
      and eq: "c_str (auto_name (of_nat i :: 32 word)) = c_str (auto_name (of_nat j))"
    have ui: "unat (of_nat i :: 32 word) = i" and uj: "unat (of_nat j :: 32 word) = j"
      using i j assms by (simp_all add: unat_of_nat)
    have "(of_nat i :: 32 word) = of_nat j"
      by (rule auto_name_inj) (use i j assms ui uj eq in simp_all)
    then have "unat (of_nat i :: 32 word) = unat (of_nat j :: 32 word)"
      by simp
    then show "i = j"
      by (simp only: ui uj)
  qed
  then show ?thesis
    by (simp add: distinct_map)
qed

lemma unnamed_spawns_last_two:
  "map name (take 2 (taskList (unnamed_spawns M hs (Suc (Suc n)) st))) =
     [c_str (auto_name (count st + of_nat (Suc n))), c_str (auto_name (count st + of_nat n))]"
  by (simp add: os_thread_create_parts unnamed_spawns_count add.commute add.left_commute)

text \<open>
  C5 (amended). A call without a name made while the counter is below 2080 names the task
  \<^verbatim>\<open>thread.\<close> followed by two characters computed from the counter (its decimal digits
  while it is below 100) and increments the counter. The names given by the first 2080 calls
  without a name are pairwise distinct.
\<close>

theorem os_thread_create_auto_name:
  "(unat (count st) < 2080 \<longrightarrow>
      pcName (fst (snd (os_thread_create M h None p ss st))) =
        bytes ''thread.'' @ [ucast (48 + count st div 10), ucast (48 + count st mod 10)])
   \<and> count (snd (snd (os_thread_create M h None p ss st))) = count st + 1
   \<and> (n \<le> 2080 \<longrightarrow>
        distinct (map name (taskList (unnamed_spawns M hs n thread_state_init))))"
  using auto_names_distinct [of n]
  by (simp add: os_thread_create_parts c_str_auto_name unnamed_spawns_names
      thread_state_init_def)

text \<open>Witness: the first three tasks created without a name.\<close>

theorem os_thread_create_auto_name_witness:
  "unat (count thread_state_init) < 2080
   \<and> pcName (fst (snd (os_thread_create (Signed_const 5) (example_handle 0) None 0 0 thread_state_init)))
       = bytes ''thread.00''
   \<and> map name (taskList (unnamed_spawns (Signed_const 5) example_handle 3 thread_state_init))
       = [bytes ''thread.02'', bytes ''thread.01'', bytes ''thread.00'']
   \<and> distinct (map name (taskList (unnamed_spawns (Signed_const 5) example_handle 3 thread_state_init)))"
proof -
  have a: "unat (count thread_state_init) < 2080"
    by (simp add: thread_state_init_def)
  have b: "pcName (fst (snd (os_thread_create (Signed_const 5) (example_handle 0) None 0 0 thread_state_init)))
       = bytes ''thread.00''"
    using os_thread_create_auto_name
            [where st = thread_state_init and M = "Signed_const 5" and h = "example_handle 0" and p = 0
               and ss = 0 and n = 3 and hs = example_handle] a
    by (simp add: thread_state_init_def bytes_def)
  have c: "distinct (map name (taskList (unnamed_spawns (Signed_const 5) example_handle 3 thread_state_init)))"
    using os_thread_create_auto_name
            [where st = thread_state_init and M = "Signed_const 5" and h = "example_handle 0" and p = 0
               and ss = 0 and n = 3 and hs = example_handle]
    by simp
  have d: "map name (taskList (unnamed_spawns (Signed_const 5) example_handle 3 thread_state_init))
       = [bytes ''thread.02'', bytes ''thread.01'', bytes ''thread.00'']"
    by (simp add: unnamed_spawns_names thread_state_init_def upt_rec auto_name_def strcpy_def
        c_str_def bytes_def)
  from a b c d show ?thesis by blast
qed

text \<open>
  C5 as stated fails in two ways. A task that was given the name \<^verbatim>\<open>thread.00\<close> by its
  creator shares it with the first task created without a name. And at the counter values
  2080 and 2081 the first suffix character is the byte 0, which ends the string: both tasks
  are called \<^verbatim>\<open>thread.\<close>.
\<close>

theorem os_thread_create_name_clash_counterexample:
  "map name (taskList (snd (snd (os_thread_create (Signed_const 5) (example_handle 1) None 0 0
       (snd (snd (os_thread_create (Signed_const 5) (example_handle 0) (Some (bytes ''thread.00'')) 0 0
          thread_state_init)))))))
     = [bytes ''thread.00'', bytes ''thread.00'']
   \<and> map name (take 2 (taskList (unnamed_spawns (Signed_const 5) example_handle 2082 thread_state_init)))
     = [bytes ''thread.'', bytes ''thread.'']"
proof -
  have "map name (take 2 (taskList (unnamed_spawns (Signed_const 5) example_handle 2082 thread_state_init)))
     = [bytes ''thread.'', bytes ''thread.'']"
    using unnamed_spawns_last_two [of "Signed_const 5" example_handle 2080 thread_state_init]
    by (simp add: thread_state_init_def auto_name_def strcpy_def c_str_def bytes_def)
  moreover have "map name (taskList (snd (snd (os_thread_create (Signed_const 5) (example_handle 1) None 0 0
       (snd (snd (os_thread_create (Signed_const 5) (example_handle 0) (Some (bytes ''thread.00'')) 0 0
          thread_state_init)))))))
     = [bytes ''thread.00'', bytes ''thread.00'']"
    by (simp add: os_thread_create_def add_thread_to_task_list_def thread_state_init_def
        auto_name_def strcpy_def c_str_def bytes_def)
  ultimately show ?thesis by blast
qed

section \<open>Properties of the health monitor\<close>

lemma sweep_deleted_filter:
  "sweep_deleted xs =
     (filter (\<lambda>x. unused x \<noteq> DELETED_TASK_MAGIC) xs, filter (\<lambda>x. unused x = DELETED_TASK_MAGIC) xs)"
  by (induction xs) simp_all

lemma update_unused_map:
  "update_unused hwm sz xs =
     map (\<lambda>x. if task x \<noteq> 0 then x\<lparr>unused := hwm (task x) * sz\<rparr> else x) xs"
  by (induction xs) simp_all

lemma vApplicationIdleHook_eq:
  "vApplicationIdleHook hwm sz st =
     (st\<lparr>taskList := map (\<lambda>x. if task x \<noteq> 0 then x\<lparr>unused := hwm (task x) * sz\<rparr> else x)
                         (filter (\<lambda>x. unused x \<noteq> DELETED_TASK_MAGIC) (taskList st))\<rparr>,
      filter (\<lambda>x. unused x = DELETED_TASK_MAGIC) (taskList st))"
  by (simp add: vApplicationIdleHook_def sweep_deleted_filter update_unused_map)

text \<open>
  The value stored by the second loop is a multiple of \<^verbatim>\<open>sizeof(portSTACK_TYPE)\<close>, so
  with an even size it is never the (odd) magic value: the cycle does not turn a running
  task's entry into a deleted one.
\<close>

lemma DELETED_TASK_MAGIC_odd: "odd DELETED_TASK_MAGIC"
  by (simp add: DELETED_TASK_MAGIC_def)

lemma high_water_mark_not_magic:
  fixes sz :: "32 word"
  assumes "even sz"
  shows "h * sz \<noteq> DELETED_TASK_MAGIC"
proof
  assume "h * sz = DELETED_TASK_MAGIC"
  moreover have "even (h * sz)"
    using assms by simp
  ultimately show False
    using DELETED_TASK_MAGIC_odd by simp
qed

text \<open>
  \<^verbatim>\<open>os_thread_start\<close> marks the entry of the task that exits; when the non-null handles of
  the registry are distinct, no entry carries that handle after the exit and one idle cycle.
\<close>

lemma mark_deleted_marks:
  "h \<in> task ` set xs \<Longrightarrow>
   \<exists>e \<in> set (mark_deleted h xs). task e = 0 \<and> unused e = DELETED_TASK_MAGIC"
  by (induction xs) auto

lemma mark_deleted_removes_handle:
  assumes "h \<noteq> 0" and "distinct (filter (\<lambda>t. t \<noteq> 0) (map task xs))"
  shows "h \<notin> task ` set (mark_deleted h xs)"
  using assms
proof (induction xs)
  case Nil
  then show ?case by simp
next
  case (Cons node rest)
  show ?case
  proof (cases "task node = h")
    case True
    with Cons.prems have "h \<notin> task ` set rest"
      by (auto simp: image_iff)
    with True Cons.prems(1) show ?thesis
      by simp
  next
    case False
    with Cons show ?thesis
      by (auto split: if_splits)
  qed
qed

lemma vApplicationIdleHook_handles:
  "task ` set (taskList (fst (vApplicationIdleHook hwm sz st))) \<subseteq> task ` set (taskList st)"
  by (auto simp: vApplicationIdleHook_eq)

lemma exited_task_leaves_registry:
  assumes "h \<noteq> 0" and "distinct (filter (\<lambda>t. t \<noteq> 0) (map task (taskList st)))"
  shows "h \<notin> task ` set (taskList (fst (vApplicationIdleHook hwm sz (os_thread_start_exit h st))))"
  using mark_deleted_removes_handle [OF assms]
    vApplicationIdleHook_handles [of hwm sz "os_thread_start_exit h st"]
  by (auto simp: os_thread_start_exit_def)


text \<open>
  C6. Let an entry of the registry be marked as \<^verbatim>\<open>os_thread_start\<close> marks the entry of a
  task whose entry function has returned (null handle, magic value). After one idle cycle it
  is no longer in the registry. The cycle frees exactly the entries that carry the magic
  value and keeps all others, in their order, with their handles and names; every entry that
  is kept and has a handle holds the stack high-water mark of its task, in bytes.
\<close>

theorem vApplicationIdleHook_reclaims:
  assumes "e \<in> set (taskList st)" and "task e = 0" and "unused e = DELETED_TASK_MAGIC"
  shows "e \<notin> set (taskList (fst (vApplicationIdleHook hwm sz st)))
       \<and> snd (vApplicationIdleHook hwm sz st) =
           filter (\<lambda>x. unused x = DELETED_TASK_MAGIC) (taskList st)
       \<and> map task (taskList (fst (vApplicationIdleHook hwm sz st))) =
           map task (filter (\<lambda>x. unused x \<noteq> DELETED_TASK_MAGIC) (taskList st))
       \<and> map name (taskList (fst (vApplicationIdleHook hwm sz st))) =
           map name (filter (\<lambda>x. unused x \<noteq> DELETED_TASK_MAGIC) (taskList st))
       \<and> (\<forall>x \<in> set (taskList st). unused x \<noteq> DELETED_TASK_MAGIC \<and> task x \<noteq> 0 \<longrightarrow>
             x\<lparr>unused := hwm (task x) * sz\<rparr> \<in> set (taskList (fst (vApplicationIdleHook hwm sz st))))"
proof -
  have "e \<notin> set (taskList (fst (vApplicationIdleHook hwm sz st)))"
  proof
    assume "e \<in> set (taskList (fst (vApplicationIdleHook hwm sz st)))"
    then obtain x where x: "unused x \<noteq> DELETED_TASK_MAGIC"
      and e: "e = (if task x \<noteq> 0 then x\<lparr>unused := hwm (task x) * sz\<rparr> else x)"
      by (auto simp: vApplicationIdleHook_eq)
    show False
    proof (cases "task x = 0")
      case True
      with e x assms(3) show False by simp
    next
      case False
      with e have "task e = task x" by simp
      with False assms(2) show False by simp
    qed
  qed
  moreover have "\<forall>x \<in> set (taskList st). unused x \<noteq> DELETED_TASK_MAGIC \<and> task x \<noteq> 0 \<longrightarrow>
             x\<lparr>unused := hwm (task x) * sz\<rparr> \<in> set (taskList (fst (vApplicationIdleHook hwm sz st)))"
    by (auto simp: vApplicationIdleHook_eq image_iff intro!: bexI)
  ultimately show ?thesis
    by (simp add: vApplicationIdleHook_eq comp_def)
qed

text \<open>
  Witness: in the example registry the entry of the second task is marked; the cycle frees
  it and stores 100 words of 4 bytes for the two others.
\<close>

theorem vApplicationIdleHook_reclaims_witness:
  "\<lparr>task = 0, name = bytes ''thread.01'', unused = DELETED_TASK_MAGIC\<rparr>
     \<in> set (taskList example_registry)
   \<and> \<lparr>task = 0, name = bytes ''thread.01'', unused = DELETED_TASK_MAGIC\<rparr>
     \<notin> set (taskList (fst (vApplicationIdleHook example_hwm 4 example_registry)))
   \<and> snd (vApplicationIdleHook example_hwm 4 example_registry) =
     [\<lparr>task = 0, name = bytes ''thread.01'', unused = DELETED_TASK_MAGIC\<rparr>]
   \<and> taskList (fst (vApplicationIdleHook example_hwm 4 example_registry)) =
     [\<lparr>task = example_handle 2, name = bytes ''thread.02'', unused = 400\<rparr>,
      \<lparr>task = example_handle 0, name = bytes ''thread.00'', unused = 400\<rparr>]"
proof -
  let ?e = "\<lparr>task = 0, name = bytes ''thread.01'', unused = DELETED_TASK_MAGIC\<rparr>"
  have reg: "taskList example_registry =
     [\<lparr>task = example_handle 2, name = bytes ''thread.02'', unused = 2048\<rparr>,
      ?e,
      \<lparr>task = example_handle 0, name = bytes ''thread.00'', unused = 2048\<rparr>]"
    by (simp add: example_registry_def os_thread_start_exit_def numeral_3_eq_3
        os_thread_create_def add_thread_to_task_list_def thread_state_init_def
        auto_name_def strcpy_def c_str_def bytes_def example_handle_def)
  have h: "?e \<in> set (taskList example_registry)" "task ?e = 0" "unused ?e = DELETED_TASK_MAGIC"
    by (simp_all add: reg)
  have gone: "?e \<notin> set (taskList (fst (vApplicationIdleHook example_hwm 4 example_registry)))"
    using vApplicationIdleHook_reclaims [OF h] by blast
  have freed: "snd (vApplicationIdleHook example_hwm 4 example_registry) = [?e]"
    by (simp add: vApplicationIdleHook_def reg DELETED_TASK_MAGIC_def)
  have kept: "taskList (fst (vApplicationIdleHook example_hwm 4 example_registry)) =
     [\<lparr>task = example_handle 2, name = bytes ''thread.02'', unused = 400\<rparr>,
      \<lparr>task = example_handle 0, name = bytes ''thread.00'', unused = 400\<rparr>]"
    by (simp add: vApplicationIdleHook_def reg DELETED_TASK_MAGIC_def example_handle_def
        example_hwm_def)
  from h(1) gone freed kept show ?thesis by blast
qed

section \<open>Properties of the heap allocator\<close>

text \<open>
  The branches of \<^verbatim>\<open>_sbrk_r\<close>, with the bump pointers as the function reads them (a null
  pointer standing for its region's start) and the sums of pointer and increment as the
  machine computes them, modulo \<open>2\<^sup>3\<^sup>2\<close>.
\<close>

lemma sbrk_r_branches:
  "(heap_end (sbrk_init syms v0) + incr \<le> sym_cs3_heap_end syms \<longrightarrow>
      sbrk_r syms incr v0 =
        Inr (heap_end (sbrk_init syms v0),
             (sbrk_init syms v0)\<lparr>heap_end := heap_end (sbrk_init syms v0) + incr\<rparr>))
   \<and> (\<not> heap_end (sbrk_init syms v0) + incr \<le> sym_cs3_heap_end syms
        \<and> sym_heap2_start syms \<noteq> sym_heap2_end syms
        \<and> heap2_end (sbrk_init syms v0) + incr \<le> sym_heap2_end syms \<longrightarrow>
      sbrk_r syms incr v0 =
        Inr (heap2_end (sbrk_init syms v0),
             (sbrk_init syms v0)\<lparr>heap2_end := heap2_end (sbrk_init syms v0) + incr\<rparr>))
   \<and> (\<not> heap_end (sbrk_init syms v0) + incr \<le> sym_cs3_heap_end syms
        \<and> \<not> (sym_heap2_start syms \<noteq> sym_heap2_end syms
              \<and> heap2_end (sbrk_init syms v0) + incr \<le> sym_heap2_end syms) \<longrightarrow>
      sbrk_r syms incr v0 = Inl BLINK_DIE_OUTOFMEM)"
  by (auto simp: sbrk_r_def Let_def not_le)

text \<open>
  Where neither sum passes the end of the address space, the machine's comparison is the
  comparison of the sizes: the request is served from the primary region if it fits there,
  else from a present secondary region if it fits there, and else the call halts.
\<close>

lemma sbrk_r_no_wrap:
  assumes "unat (heap_end (sbrk_init syms v0)) + unat incr < 2 ^ 32"
    and "unat (heap2_end (sbrk_init syms v0)) + unat incr < 2 ^ 32"
  shows "(unat (heap_end (sbrk_init syms v0)) + unat incr \<le> unat (sym_cs3_heap_end syms) \<longrightarrow>
      sbrk_r syms incr v0 =
        Inr (heap_end (sbrk_init syms v0),
             (sbrk_init syms v0)\<lparr>heap_end := heap_end (sbrk_init syms v0) + incr\<rparr>))
   \<and> (unat (sym_cs3_heap_end syms) < unat (heap_end (sbrk_init syms v0)) + unat incr
        \<and> sym_heap2_start syms \<noteq> sym_heap2_end syms
        \<and> unat (heap2_end (sbrk_init syms v0)) + unat incr \<le> unat (sym_heap2_end syms) \<longrightarrow>
      sbrk_r syms incr v0 =
        Inr (heap2_end (sbrk_init syms v0),
             (sbrk_init syms v0)\<lparr>heap2_end := heap2_end (sbrk_init syms v0) + incr\<rparr>))
   \<and> (unat (sym_cs3_heap_end syms) < unat (heap_end (sbrk_init syms v0)) + unat incr
        \<and> (sym_heap2_start syms = sym_heap2_end syms
            \<or> unat (sym_heap2_end syms) < unat (heap2_end (sbrk_init syms v0)) + unat incr) \<longrightarrow>
      sbrk_r syms incr v0 = Inl BLINK_DIE_OUTOFMEM)"
proof -
  have one: "unat (heap_end (sbrk_init syms v0) + incr)
      = unat (heap_end (sbrk_init syms v0)) + unat incr"
    using assms(1) by (simp add: unat_add_lem [THEN iffD1])
  have two: "unat (heap2_end (sbrk_init syms v0) + incr)
      = unat (heap2_end (sbrk_init syms v0)) + unat incr"
    using assms(2) by (simp add: unat_add_lem [THEN iffD1])
  show ?thesis
    using sbrk_r_branches [of syms v0 incr]
    by (simp add: word_le_nat_alt one two not_le)
qed

text \<open>
  C2 (the code departs from it). On the layout at \<^verbatim>\<open>0xA0000000\<close>, with 128 bytes left in
  either region, a request of 256 bytes takes the fatal out-of-memory path, as the claim
  says. A request of \<^verbatim>\<open>0x60000100\<close> bytes, a positive \<^verbatim>\<open>ptrdiff_t\<close> that is larger than
  what is left in either region and larger than both regions together, does not: the sum
  of the primary pointer and the increment passes the end of the address space and comes
  out as \<^verbatim>\<open>0x1080\<close>, which is below \<^verbatim>\<open>__cs3_heap_end\<close>, so the call returns the primary
  pointer and leaves \<^verbatim>\<open>heap_end\<close> outside both regions.
\<close>

theorem sbrk_r_wraps_past_end:
  "unat (sym_cs3_heap_end board_high) < unat (0xA0000F80 :: addr) + unat (0x60000100 :: 32 word)
   \<and> unat (sym_heap2_end board_high) < unat (0xA0003F80 :: addr) + unat (0x60000100 :: 32 word)
   \<and> sbrk_r board_high 0x100 \<lparr>heap_end = 0xA0000F80, heap2_end = 0xA0003F80\<rparr>
       = Inl BLINK_DIE_OUTOFMEM
   \<and> sbrk_r board_high 0x60000100 \<lparr>heap_end = 0xA0000F80, heap2_end = 0xA0003F80\<rparr>
       = Inr (0xA0000F80, \<lparr>heap_end = 0x1080, heap2_end = 0xA0003F80\<rparr>)"
  by (simp add: sbrk_r_def sbrk_init_def board_high_def)

lemma sbrk_init_nonnull:
  "heap_end v0 \<noteq> 0 \<Longrightarrow> heap_end (sbrk_init syms v0) = heap_end v0"
  "heap2_end v0 \<noteq> 0 \<Longrightarrow> heap2_end (sbrk_init syms v0) = heap2_end v0"
  by (simp_all add: sbrk_init_def Let_def)

lemma sbrk_init_null:
  "heap_end v0 = 0 \<Longrightarrow> heap_end (sbrk_init syms v0) = sym_cs3_heap_start syms"
  "heap2_end v0 = 0 \<Longrightarrow> heap2_end (sbrk_init syms v0) = sym_heap2_start syms"
  by (simp_all add: sbrk_init_def Let_def)

text \<open>
  C9 (amended). A successful call first replaces a null bump pointer by the start symbol of
  its region and leaves a non-null one as it is. With the pointers so initialised, a request
  served from the primary region returns the primary pointer, advances it by exactly the
  increment and leaves the secondary pointer alone; a request served from the secondary region
  returns the secondary pointer, advances it by exactly the increment and leaves the primary
  pointer alone.
\<close>

theorem sbrk_r_frame:
  assumes "sbrk_r syms incr v0 = Inr (p, v')"
  shows "heap_end (sbrk_init syms v0) =
           (if heap_end v0 = 0 then sym_cs3_heap_start syms else heap_end v0)
       \<and> heap2_end (sbrk_init syms v0) =
           (if heap2_end v0 = 0 then sym_heap2_start syms else heap2_end v0)
       \<and> (if heap_end (sbrk_init syms v0) + incr \<le> sym_cs3_heap_end syms
          then p = heap_end (sbrk_init syms v0)
             \<and> heap_end v' = heap_end (sbrk_init syms v0) + incr
             \<and> heap2_end v' = heap2_end (sbrk_init syms v0)
          else p = heap2_end (sbrk_init syms v0)
             \<and> heap2_end v' = heap2_end (sbrk_init syms v0) + incr
             \<and> heap_end v' = heap_end (sbrk_init syms v0))"
  using assms
  by (auto simp: sbrk_r_def Let_def not_le sbrk_init_nonnull sbrk_init_null split: if_splits)

text \<open>
  Witness: with both pointers in use, a request served from the secondary region and one
  served from the primary region.
\<close>

theorem sbrk_r_frame_witness:
  "sbrk_r board 0x100 \<lparr>heap_end = 0x20000F80, heap2_end = 0x10000040\<rparr> =
     Inr (0x10000040, \<lparr>heap_end = 0x20000F80, heap2_end = 0x10000140\<rparr>)
   \<and> heap_end \<lparr>heap_end = 0x20000F80, heap2_end = 0x10000140\<rparr> = 0x20000F80
   \<and> sbrk_r board 0x40 \<lparr>heap_end = 0x20000F80, heap2_end = 0x10000040\<rparr> =
     Inr (0x20000F80, \<lparr>heap_end = 0x20000FC0, heap2_end = 0x10000040\<rparr>)
   \<and> heap2_end \<lparr>heap_end = 0x20000FC0, heap2_end = 0x10000040\<rparr> = 0x10000040"
proof -
  have a: "sbrk_r board 0x100 \<lparr>heap_end = 0x20000F80, heap2_end = 0x10000040\<rparr> =
     Inr (0x10000040, \<lparr>heap_end = 0x20000F80, heap2_end = 0x10000140\<rparr>)"
    by (simp add: sbrk_r_def sbrk_init_def board_def)
  have b: "sbrk_r board 0x40 \<lparr>heap_end = 0x20000F80, heap2_end = 0x10000040\<rparr> =
     Inr (0x20000F80, \<lparr>heap_end = 0x20000FC0, heap2_end = 0x10000040\<rparr>)"
    by (simp add: sbrk_r_def sbrk_init_def board_def)
  from sbrk_r_frame [OF a]
  have "heap_end \<lparr>heap_end = 0x20000F80, heap2_end = 0x10000140\<rparr> = 0x20000F80"
    by (simp add: board_def)
  moreover from sbrk_r_frame [OF b]
  have "heap2_end \<lparr>heap_end = 0x20000FC0, heap2_end = 0x10000040\<rparr> = 0x10000040"
    by (simp add: board_def)
  ultimately show ?thesis using a b by blast
qed

text \<open>
  C9 as stated fails on a call that finds a pointer still null. The first request of a run
  is served from the primary region, yet \<^verbatim>\<open>heap2_end\<close> changes from null to
  \<^verbatim>\<open>0x10000000\<close>, the returned pointer is not the previous \<^verbatim>\<open>heap_end\<close> (null), and
  \<^verbatim>\<open>heap_end\<close> does not advance by the increment. A first request too large for the primary
  region is served from the secondary region, yet \<^verbatim>\<open>heap_end\<close> changes from null to
  \<^verbatim>\<open>0x20000000\<close>.
\<close>

theorem sbrk_r_first_call_counterexample:
  "sbrk_r board 0x100 \<lparr>heap_end = 0, heap2_end = 0\<rparr> =
     Inr (0x20000000, \<lparr>heap_end = 0x20000100, heap2_end = 0x10000000\<rparr>)
   \<and> sbrk_r board 0x1800 \<lparr>heap_end = 0, heap2_end = 0x10000000\<rparr> =
     Inr (0x10000000, \<lparr>heap_end = 0x20000000, heap2_end = 0x10001800\<rparr>)"
  by (simp add: sbrk_r_def sbrk_init_def board_def)

section \<open>Properties of the program entry\<close>

text \<open>
  C8. Without FreeRTOS, \<^verbatim>\<open>main\<close> calls \<^verbatim>\<open>appl_main\<close> with its own \<^verbatim>\<open>argc\<close> and \<^verbatim>\<open>argv\<close>,
  after \<^verbatim>\<open>WSAStartup\<close> where \<^verbatim>\<open>__WIN32__\<close> is defined and after nothing elsewhere, and
  its exit status is the value \<^verbatim>\<open>appl_main\<close> returns.
\<close>

theorem main_returns_appl_main:
  "fst (main win32 WSAStartup appl_main argc argv w) =
     fst (appl_main argc argv (if win32 then WSAStartup w else w))
   \<and> main True WSAStartup appl_main argc argv w = appl_main argc argv (WSAStartup w)
   \<and> main False WSAStartup appl_main argc argv w = appl_main argc argv w"
  by (simp add: main_def)

end
